theory Spec2Isabelle
  imports Main "HOL-Library.Char_ord" "HOL-Library.List_Lexorder" "HOL-Library.Multiset"
begin

section \<open>Text primitives of the Python string type\<close>

text \<open>
  A Python \<open>str\<close> is modelled as a \<open>string\<close> whose characters are the code points
  below 256.  The predicates below are the restrictions of \<open>str.isspace\<close>, of the line
  boundaries of \<open>str.splitlines\<close> and of \<open>str.lower\<close> to that range.
\<close>

definition is_space :: "char \<Rightarrow> bool" where
  "is_space c \<longleftrightarrow>
     (let n = (of_char c :: nat) in (9 \<le> n \<and> n \<le> 13) \<or> (28 \<le> n \<and> n \<le> 32) \<or> n = 133 \<or> n = 160)"

definition is_linebreak :: "char \<Rightarrow> bool" where
  "is_linebreak c \<longleftrightarrow>
     (let n = (of_char c :: nat) in (10 \<le> n \<and> n \<le> 13) \<or> (28 \<le> n \<and> n \<le> 30) \<or> n = 133)"

definition lower_char :: "char \<Rightarrow> char" where
  "lower_char c =
     (let n = (of_char c :: nat) in
      if (65 \<le> n \<and> n \<le> 90) \<or> (192 \<le> n \<and> n \<le> 222 \<and> n \<noteq> 215)
      then char_of (n + 32) else c)"

definition lower :: "string \<Rightarrow> string" where
  "lower s = map lower_char s"

definition strip :: "string \<Rightarrow> string" where
  "strip s = rev (dropWhile is_space (rev (dropWhile is_space s)))"

definition startswith :: "string \<Rightarrow> string \<Rightarrow> bool" where
  "startswith s p \<longleftrightarrow> take (length p) s = p"

text \<open>\<open>contains sub s\<close> is Python's \<open>sub in s\<close>.\<close>

fun contains :: "string \<Rightarrow> string \<Rightarrow> bool" where
  "contains sub [] = (sub = [])"
| "contains sub (c # cs) = (startswith (c # cs) sub \<or> contains sub cs)"

text \<open>
  \<open>splitlines_from cur s\<close> is \<open>str.splitlines\<close> with the line read so far in \<open>cur\<close>:
  a carriage return followed by a line feed is one boundary, and a final boundary
  opens no further line.
\<close>

fun splitlines_from :: "string \<Rightarrow> string \<Rightarrow> string list" where
  "splitlines_from cur [] = (if cur = [] then [] else [cur])"
| "splitlines_from cur [c] = (if is_linebreak c then [cur] else [cur @ [c]])"
| "splitlines_from cur (c # d # cs) =
     (if c = CHR 0x0D \<and> d = CHR 0x0A then cur # splitlines_from [] cs
      else if is_linebreak c then cur # splitlines_from [] (d # cs)
      else splitlines_from (cur @ [c]) (d # cs))"

definition splitlines :: "string \<Rightarrow> string list" where
  "splitlines s = splitlines_from [] s"

text \<open>
  \<open>split_once sep s\<close> is \<open>s.split(sep, 1)\<close> for a text that contains \<open>sep\<close>: the part
  before the first occurrence and the part after it.  The source calls it only under
  the guard \<open>sep in s\<close>.
\<close>

fun split_once :: "string \<Rightarrow> string \<Rightarrow> string \<times> string" where
  "split_once sep [] = ([], [])"
| "split_once sep (c # cs) =
     (if startswith (c # cs) sep then ([], drop (length sep) (c # cs))
      else (case split_once sep cs of (a, b) \<Rightarrow> (c # a, b)))"

section \<open>Package sets\<close>

text \<open>
  The value stored for a package, \<open>{"name": ..., "version": ...}\<close>, and a Python
  dictionary of them in insertion order: assigning to a key that is present replaces
  the value where it stands, a new key goes to the end.
\<close>

record pkg =
  name :: string
  version :: string

type_synonym pkgdict = "(string \<times> pkg) list"

fun dict_set :: "(string \<times> 'v) list \<Rightarrow> string \<Rightarrow> 'v \<Rightarrow> (string \<times> 'v) list" where
  "dict_set [] k v = [(k, v)]"
| "dict_set ((k', v') # d) k v = (if k' = k then (k, v) # d else (k', v') # dict_set d k v)"

definition dict_get :: "(string \<times> 'v) list \<Rightarrow> string \<Rightarrow> 'v option" where
  "dict_get d k = map_of d k"

definition dict_has :: "(string \<times> 'v) list \<Rightarrow> string \<Rightarrow> bool" where
  "dict_has d k \<longleftrightarrow> k \<in> set (map fst d)"

text \<open>The body of the loop of \<open>parse_requirements_text\<close>, on one line of the text.\<close>

definition parse_line :: "string \<Rightarrow> pkgdict \<times> string list \<Rightarrow> pkgdict \<times> string list" where
  "parse_line line st =
     (case st of (pkgs, others) \<Rightarrow>
      let s = strip line in
      if s = [] \<or> startswith s ''#'' then (pkgs, others)
      else if contains '' @ '' s \<or> startswith s ''-e '' then (pkgs, others @ [s])
      else if contains ''=='' s then
        (case split_once ''=='' s of (nm, ver) \<Rightarrow>
           (dict_set pkgs (lower nm) \<lparr>name = nm, version = ver\<rparr>, others))
      else (pkgs, others @ [s]))"

fun parse_lines :: "string list \<Rightarrow> pkgdict \<times> string list \<Rightarrow> pkgdict \<times> string list" where
  "parse_lines [] st = st"
| "parse_lines (l # ls) st = parse_lines ls (parse_line l st)"

text \<open>\<open>text or ""\<close> of the source makes an absent text the empty one.\<close>

definition parse_requirements_text :: "string \<Rightarrow> pkgdict \<times> string list" where
  "parse_requirements_text text = parse_lines (splitlines text) ([], [])"

section \<open>The diff of two package sets\<close>

text \<open>
  The entries of the three result lists of \<open>diff_envs\<close>:
  \<open>{"name", "from", "to"}\<close> for an install (\<open>from\<close> is \<open>None\<close> for a package the
  source side lacks), \<open>{"name", "from"}\<close> for an uninstall, and \<open>{"name", "version"}\<close>,
  the shape of \<open>pkg\<close>, for an unchanged package.
\<close>

record install =
  i_name :: string
  i_from :: "string option"
  i_to :: string

record uninstall =
  u_name :: string
  u_from :: string

text \<open>The first loop, over the items of the target dictionary.\<close>

fun diff_target_loop ::
  "pkgdict \<Rightarrow> (string \<times> pkg) list \<Rightarrow> install list \<times> pkg list \<Rightarrow> install list \<times> pkg list" where
  "diff_target_loop current_pkgs [] acc = acc"
| "diff_target_loop current_pkgs ((key, tgt) # rest) acc =
     (case acc of (installs, unchanged) \<Rightarrow>
      (case dict_get current_pkgs key of
         None \<Rightarrow>
           diff_target_loop current_pkgs rest
             (installs @ [\<lparr>i_name = name tgt, i_from = None, i_to = version tgt\<rparr>], unchanged)
       | Some cur \<Rightarrow>
           if version cur \<noteq> version tgt then
             diff_target_loop current_pkgs rest
               (installs @ [\<lparr>i_name = name tgt, i_from = Some (version cur), i_to = version tgt\<rparr>],
                unchanged)
           else
             diff_target_loop current_pkgs rest
               (installs, unchanged @ [\<lparr>name = name tgt, version = version tgt\<rparr>])))"

text \<open>The second loop, over the items of the current dictionary.\<close>

fun diff_current_loop ::
  "pkgdict \<Rightarrow> (string \<times> pkg) list \<Rightarrow> uninstall list \<Rightarrow> uninstall list" where
  "diff_current_loop target_pkgs [] uninstalls = uninstalls"
| "diff_current_loop target_pkgs ((key, cur) # rest) uninstalls =
     (if \<not> dict_has target_pkgs key then
        diff_current_loop target_pkgs rest
          (uninstalls @ [\<lparr>u_name = name cur, u_from = version cur\<rparr>])
      else diff_current_loop target_pkgs rest uninstalls)"

definition diff_envs :: "pkgdict \<Rightarrow> pkgdict \<Rightarrow> install list \<times> uninstall list \<times> pkg list" where
  "diff_envs current_pkgs target_pkgs =
     (case diff_target_loop current_pkgs target_pkgs ([], []) of (installs, unchanged) \<Rightarrow>
        (installs, diff_current_loop target_pkgs current_pkgs [], unchanged))"

text \<open>
  A package set as the specification has it: the keys of the dictionary are distinct
  and each is the lowercase form of the name stored under it.
\<close>

definition wf_pkgset :: "pkgdict \<Rightarrow> bool" where
  "wf_pkgset d \<longleftrightarrow> distinct (map fst d) \<and> (\<forall>(k, e) \<in> set d. k = lower (name e))"

definition install_keys :: "install list \<Rightarrow> string set" where
  "install_keys xs = set (map (\<lambda>x. lower (i_name x)) xs)"

definition uninstall_keys :: "uninstall list \<Rightarrow> string set" where
  "uninstall_keys xs = set (map (\<lambda>x. lower (u_name x)) xs)"

definition unchanged_keys :: "pkg list \<Rightarrow> string set" where
  "unchanged_keys xs = set (map (\<lambda>x. lower (name x)) xs)"

section \<open>Snapshots\<close>

text \<open>
  The operations on snapshots read the clock, the interpreter, \<open>pip freeze\<close> and the
  snapshot directory.  The model passes them in: \<open>env\<close> holds \<open>sys.executable\<close>, the
  installation mode and \<open>SNAP_DIR\<close>, and a \<open>store\<close> is the snapshot directory.

  The directory is kept as its \<open>.json\<close> files and its \<open>.txt\<close> files, each list keyed by the
  file name without the extension and in the order in which \<open>os.listdir\<close> yields the
  names, so that \<open>os.path.join(SNAP_DIR, id_ + ".json")\<close> is the entry \<open>id_\<close> of
  \<open>json_files\<close>.  A \<open>.json\<close> file is seen through \<open>json.load\<close> only: reading it raises
  (\<open>Unreadable\<close>), or it holds an object with the fields of the metadata (\<open>Meta\<close>), or
  it holds a JSON value that is not an object, such as a list or a number
  (\<open>NonObject\<close>, with the truth value that Python gives to the value: false for
  \<open>null\<close>, \<open>false\<close>, 0, the empty string and the empty list).  The \<open>created_utc\<close> of an object is a string, as \<open>save_snapshot\<close> writes
  it, or a number; objects that lack fields, or hold another kind of value there, are
  not represented.  The directory itself exists, and an id names a file directly
  inside it.
\<close>

datatype error =
  RuntimeError | JSONDecodeError | FileNotFoundError | OSError | AttributeError | TypeError

datatype created = JStr string | JNum int

record meta =
  m_id :: string
  m_name :: string
  m_comment :: string
  m_created_utc :: created
  m_python :: string
  m_mode :: string
  m_count :: nat
  m_requirements :: string
  m_dir :: string
  m_path :: string

datatype json_file = Unreadable | Meta meta | NonObject bool

record store =
  json_files :: "(string \<times> json_file) list"
  txt_files :: "(string \<times> string) list"

record env =
  python :: string
  mode :: string
  snap_dir :: string

text \<open>\<open>os.path.join\<close> of a directory and a relative file name, with \<open>/\<close> as separator.\<close>

definition path_join :: "string \<Rightarrow> string \<Rightarrow> string" where
  "path_join d f = (if d = [] \<or> last d = CHR ''/'' then d @ f else d @ ''/'' @ f)"

definition remove_file :: "(string \<times> 'v) list \<Rightarrow> string \<Rightarrow> (string \<times> 'v) list" where
  "remove_file d k = filter (\<lambda>kv. fst kv \<noteq> k) d"

text \<open>
  What \<open>open(path, "r").read()\<close> returns for a file holding \<open>s\<close>: a carriage return,
  alone or before a line feed, is read as a line feed.
\<close>

fun universal_newlines :: "string \<Rightarrow> string" where
  "universal_newlines [] = []"
| "universal_newlines [c] = [if c = CHR 0x0D then CHR 0x0A else c]"
| "universal_newlines (c # d # cs) =
     (if c = CHR 0x0D \<and> d = CHR 0x0A then CHR 0x0A # universal_newlines cs
      else if c = CHR 0x0D then CHR 0x0A # universal_newlines (d # cs)
      else c # universal_newlines (d # cs))"

definition read_text :: "store \<Rightarrow> string \<Rightarrow> error + string" where
  "read_text st sid =
     (case dict_get (txt_files st) sid of
        None \<Rightarrow> Inl FileNotFoundError
      | Some s \<Rightarrow> Inr (universal_newlines s))"

definition safe_char :: "char \<Rightarrow> bool" where
  "safe_char c \<longleftrightarrow>
     (let n = (of_char c :: nat) in
      (65 \<le> n \<and> n \<le> 90) \<or> (97 \<le> n \<and> n \<le> 122) \<or> (48 \<le> n \<and> n \<le> 57)
      \<or> c = CHR ''_'' \<or> c = CHR ''.'' \<or> c = CHR ''-'')"

text \<open>
  \<open>re.sub(r"[^A-Za-z0-9_.-]+", "_", s)\<close>: every maximal run of other characters becomes
  one underscore.  The flag says that the run being read has been replaced already.
\<close>

fun sub_unsafe :: "bool \<Rightarrow> string \<Rightarrow> string" where
  "sub_unsafe in_run [] = []"
| "sub_unsafe in_run (c # cs) =
     (if safe_char c then c # sub_unsafe False cs
      else if in_run then sub_unsafe True cs
      else CHR ''_'' # sub_unsafe True cs)"

definition safe_name :: "string \<Rightarrow> string" where
  "safe_name s =
     (let s1 = strip s;
          s2 = (if s1 = [] then ''snapshot'' else s1)
      in take 60 (sub_unsafe False s2))"

text \<open>
  \<open>save_snapshot\<close>.  \<open>ts\<close> is the formatted time of \<open>datetime.utcnow()\<close>, \<open>req_text\<close> the
  output of \<open>freeze_requirements()\<close>, and \<open>unwritable\<close> lists the file names for which
  opening for writing raises.  The directory is returned with the outcome, since the
  payload may have been written when writing the metadata fails.
\<close>

definition save_snapshot ::
  "env \<Rightarrow> string list \<Rightarrow> string \<Rightarrow> string \<Rightarrow> store \<Rightarrow> string \<Rightarrow> string
     \<Rightarrow> (error + meta) \<times> store" where
  "save_snapshot e unwritable ts req_text st nm comment =
     (let base = (if safe_name nm = [] then ''snapshot'' else safe_name nm) @ ''_'' @ ts;
          req_path = path_join (snap_dir e) (base @ ''.txt'');
          count = length (filter (\<lambda>l. l \<noteq> [] \<and> \<not> startswith l ''#'') (splitlines req_text));
          meta = \<lparr>m_id = base, m_name = nm, m_comment = comment, m_created_utc = JStr ts,
                  m_python = python e, m_mode = mode e, m_count = count,
                  m_requirements = base @ ''.txt'', m_dir = snap_dir e, m_path = req_path\<rparr>
      in if base @ ''.txt'' \<in> set unwritable then (Inl RuntimeError, st)
         else
           (let st1 = st\<lparr>txt_files := dict_set (txt_files st) base req_text\<rparr>
            in if base @ ''.json'' \<in> set unwritable then (Inl RuntimeError, st1)
               else (Inr meta, st1\<lparr>json_files := dict_set (json_files st1) base (Meta meta)\<rparr>)))"

text \<open>
  \<open>list_snapshots\<close>.  The loop appends what \<open>json.load\<close> returns for every \<open>.json\<close> file
  and skips a file on which reading raises.  The sort comes after the loop, outside
  its \<open>try\<close>: the key \<open>m.get("created_utc", "")\<close> raises \<open>AttributeError\<close> on a value that is
  not an object, and comparing a string key with a number key raises \<open>TypeError\<close>.
  Otherwise the records are sorted by the key with \<open>reverse=True\<close>, which keeps records
  of equal key in their order.
\<close>

fun load_metas :: "(string \<times> json_file) list \<Rightarrow> json_file list \<Rightarrow> json_file list" where
  "load_metas [] metas = metas"
| "load_metas ((nm, Unreadable) # rest) metas = load_metas rest metas"
| "load_metas ((nm, Meta m) # rest) metas = load_metas rest (metas @ [Meta m])"
| "load_metas ((nm, NonObject b) # rest) metas = load_metas rest (metas @ [NonObject b])"

definition is_object :: "json_file \<Rightarrow> bool" where
  "is_object d = (case d of Meta m \<Rightarrow> True | _ \<Rightarrow> False)"

definition is_str :: "created \<Rightarrow> bool" where
  "is_str c = (case c of JStr s \<Rightarrow> True | JNum n \<Rightarrow> False)"

definition str_of :: "created \<Rightarrow> string" where
  "str_of c = (case c of JStr s \<Rightarrow> s | JNum n \<Rightarrow> [])"

definition num_of :: "created \<Rightarrow> int" where
  "num_of c = (case c of JStr s \<Rightarrow> 0 | JNum n \<Rightarrow> n)"

definition list_snapshots :: "store \<Rightarrow> error + meta list" where
  "list_snapshots st =
     (let metas = load_metas (json_files st) []
      in if list_ex (\<lambda>d. \<not> is_object d) metas then Inl AttributeError
         else
           (let objs = concat (map (\<lambda>d. case d of Meta m \<Rightarrow> [m] | _ \<Rightarrow> []) metas);
                keys = map m_created_utc objs
            in if list_ex is_str keys \<and> list_ex (\<lambda>c. \<not> is_str c) keys then Inl TypeError
               else if list_all is_str keys then
                 Inr (rev (sort_key (\<lambda>m. str_of (m_created_utc m)) (rev objs)))
               else Inr (rev (sort_key (\<lambda>m. num_of (m_created_utc m)) (rev objs)))))"

text \<open>
  \<open>get_snapshot\<close>; the pair \<open>(None, None)\<close> of the source is \<open>None\<close>.  Whatever
  \<open>json.load\<close> returns is handed on, an object or not; only a file on which reading
  raises makes it raise.
\<close>

definition get_snapshot :: "env \<Rightarrow> store \<Rightarrow> string \<Rightarrow> error + (json_file \<times> string) option" where
  "get_snapshot e st sid =
     (let req_path = path_join (snap_dir e) (sid @ ''.txt'')
      in if \<not> (dict_has (json_files st) sid \<and> dict_has (txt_files st) sid) then Inr None
         else (case dict_get (json_files st) sid of
                 None \<Rightarrow> Inl FileNotFoundError
               | Some Unreadable \<Rightarrow> Inl JSONDecodeError
               | Some doc \<Rightarrow> Inr (Some (doc, req_path))))"

text \<open>
  The truth value of what \<open>get_snapshot\<close> returns as metadata, for the tests
  \<open>if not meta\<close> of its callers: an object with the fields of the metadata is true.
\<close>

definition truthy :: "json_file \<Rightarrow> bool" where
  "truthy d = (case d of Meta m \<Rightarrow> True | NonObject b \<Rightarrow> b | Unreadable \<Rightarrow> False)"

text \<open>
  \<open>delete_snapshot\<close>; \<open>unremovable\<close> lists the file names for which \<open>os.remove\<close> raises.
  The loop runs over the metadata path, then the payload path.
\<close>

definition delete_snapshot :: "string list \<Rightarrow> store \<Rightarrow> string \<Rightarrow> bool \<times> store" where
  "delete_snapshot unremovable st sid =
     (let (ok1, st1) =
            (if dict_has (json_files st) sid then
               (if sid @ ''.json'' \<in> set unremovable then (False, st)
                else (True, st\<lparr>json_files := remove_file (json_files st) sid\<rparr>))
             else (True, st));
          (ok2, st2) =
            (if dict_has (txt_files st1) sid then
               (if sid @ ''.txt'' \<in> set unremovable then (False, st1)
                else (ok1, st1\<lparr>txt_files := remove_file (txt_files st1) sid\<rparr>))
             else (ok1, st1))
      in (ok2, st2))"

section \<open>Previews\<close>

fun join :: "string \<Rightarrow> string list \<Rightarrow> string" where
  "join sep [] = []"
| "join sep [x] = x"
| "join sep (x # y # ys) = x @ sep @ join sep (y # ys)"

text \<open>
  The result of a preview: the metadata of the snapshots compared (one for
  \<open>preview_snapshot_vs_current\<close>, two for \<open>preview_snapshot_vs_snapshot\<close>), the counts
  in the order of the source, the three lists and the commands.  The constant
  \<open>notes\<close> text is left out.
\<close>

record preview =
  snapshots :: "json_file list"
  counts :: "nat list"
  installs :: "install list"
  uninstalls :: "uninstall list"
  unchanged :: "pkg list"
  commands :: "string list"

text \<open>
  The commands of a preview.  Both preview functions build them with the same
  statements: the uninstall command when \<open>uninstalls\<close> is not empty, then one install
  command for each item of \<open>installs\<close>.  \<open>sort\<close> is the order of \<open>sorted\<close> on strings, by
  code point.
\<close>

definition render_commands :: "install list \<Rightarrow> uninstall list \<Rightarrow> string list" where
  "render_commands ins unins =
     (if unins \<noteq> [] then
        [''python -m pip uninstall -y '' @ join '' '' (sort (map u_name unins))]
      else [])
     @ map (\<lambda>it. ''python -m pip install '' @ i_name it @ ''=='' @ i_to it) ins"

definition preview_snapshot_vs_current ::
  "env \<Rightarrow> string \<Rightarrow> store \<Rightarrow> string \<Rightarrow> error + preview option" where
  "preview_snapshot_vs_current e cur_text st sid =
     (case get_snapshot e st sid of
        Inl err \<Rightarrow> Inl err
      | Inr None \<Rightarrow> Inr None
      | Inr (Some (meta, req_path)) \<Rightarrow>
          if \<not> truthy meta then Inr None
          else
          (case read_text st sid of
             Inl err \<Rightarrow> Inl err
           | Inr target_text \<Rightarrow>
               (case parse_requirements_text target_text of (target_pkgs, target_other) \<Rightarrow>
                (case parse_requirements_text cur_text of (cur_pkgs, cur_other) \<Rightarrow>
                 (case diff_envs cur_pkgs target_pkgs of (ins, unins, unch) \<Rightarrow>
                    Inr (Some
                      \<lparr>snapshots = [meta],
                       counts = [length ins, length unins, length unch, length target_other],
                       installs = ins, uninstalls = unins, unchanged = unch,
                       commands = render_commands ins unins\<rparr>))))))"

definition preview_snapshot_vs_snapshot ::
  "env \<Rightarrow> store \<Rightarrow> string \<Rightarrow> string \<Rightarrow> error + preview option" where
  "preview_snapshot_vs_snapshot e st a_id b_id =
     (case get_snapshot e st a_id of
        Inl err \<Rightarrow> Inl err
      | Inr a \<Rightarrow>
     (case get_snapshot e st b_id of
        Inl err \<Rightarrow> Inl err
      | Inr b \<Rightarrow>
     (case (a, b) of
        (Some (a_meta, a_req), Some (b_meta, b_req)) \<Rightarrow>
          if \<not> (truthy a_meta \<and> truthy b_meta) then Inr None
          else
          (case read_text st a_id of
             Inl err \<Rightarrow> Inl err
           | Inr a_text \<Rightarrow>
          (case read_text st b_id of
             Inl err \<Rightarrow> Inl err
           | Inr b_text \<Rightarrow>
               (case parse_requirements_text a_text of (a_pkgs, a_other) \<Rightarrow>
                (case parse_requirements_text b_text of (b_pkgs, b_other) \<Rightarrow>
                 (case diff_envs a_pkgs b_pkgs of (ins, unins, unch) \<Rightarrow>
                    Inr (Some
                      \<lparr>snapshots = [a_meta, b_meta],
                       counts = [length ins, length unins, length unch,
                                 length a_other, length b_other],
                       installs = ins, uninstalls = unins, unchanged = unch,
                       commands = render_commands ins unins\<rparr>))))))
      | _ \<Rightarrow> Inr None)))"

section \<open>Jobs\<close>

text \<open>
  A job, without its lock and its start time.  \<open>args\<close> keeps the arguments of the
  request; \<open>out_text\<close> and \<open>is_done\<close> are the attributes \<open>text\<close> and \<open>done\<close>, and
  \<open>append_text\<close> is the method \<open>append\<close>.
\<close>

record job =
  job_id :: string
  kind :: string
  args :: "(string \<times> string option) list"
  out_text :: string
  is_done :: bool
  returncode :: "int option"

definition Job :: "string \<Rightarrow> string \<Rightarrow> (string \<times> string option) list \<Rightarrow> job" where
  "Job uuid k a = \<lparr>job_id = uuid, kind = k, args = a, out_text = [], is_done = False, returncode = None\<rparr>"

definition append_text :: "job \<Rightarrow> string \<Rightarrow> job" where
  "append_text j s = j\<lparr>out_text := out_text j @ s\<rparr>"

text \<open>
  What \<open>subprocess.Popen\<close> does with a command: it raises, or it starts a process
  that writes lines and exits with a code.
\<close>

datatype process = Raises | Runs "string list" int

text \<open>
  \<open>_run_and_stream\<close>, the body of the worker thread.  Nothing catches an exception of
  \<open>Popen\<close>: it ends the thread, and the job stays as it was.  The result is the
  exception that ended the thread, if any, and the job as the thread leaves it.
\<close>

definition run_and_stream :: "(string list \<Rightarrow> process) \<Rightarrow> job \<Rightarrow> string list \<Rightarrow> error option \<times> job" where
  "run_and_stream popen j cmd =
     (case popen cmd of
        Raises \<Rightarrow> (Some OSError, j)
      | Runs lines rc \<Rightarrow> (None, (fold (\<lambda>line jb. append_text jb line) lines j)\<lparr>returncode := Some rc, is_done := True\<rparr>))"

text \<open>
  The table \<open>JOBS\<close>, and \<open>start_job_install_name\<close>: the job is registered, then its
  thread runs; the table returned holds the job as the thread leaves it.  The other
  three functions that start a job differ from this one in the kind, the arguments and
  the command; all four hand the job to \<open>_run_and_stream\<close>.
\<close>

definition register_job :: "(string \<times> job) list \<Rightarrow> job \<Rightarrow> (string \<times> job) list" where
  "register_job jobs j = dict_set jobs (job_id j) j"

definition get_job :: "(string \<times> job) list \<Rightarrow> string \<Rightarrow> job option" where
  "get_job jobs jid = dict_get jobs jid"

definition start_job_install_name ::
  "env \<Rightarrow> (string list \<Rightarrow> process) \<Rightarrow> string \<Rightarrow> (string \<times> job) list \<Rightarrow> string \<Rightarrow> string option
     \<Rightarrow> string \<times> (string \<times> job) list" where
  "start_job_install_name e popen uuid jobs pkg ver =
     (let j = Job uuid ''install'' [(''package'', Some pkg), (''version'', ver)];
          jobs1 = register_job jobs j;
          target = (case ver of
                      None \<Rightarrow> pkg
                    | Some v \<Rightarrow> if v \<noteq> [] then pkg @ ''=='' @ v else pkg);
          cmd = [python e, ''-m'', ''pip'', ''install'', target]
      in (job_id j, dict_set jobs1 (job_id j) (snd (run_and_stream popen j cmd))))"

text \<open>\<open>s[pos:]\<close> of Python, where a negative \<open>pos\<close> counts from the end.\<close>

definition slice_from :: "string \<Rightarrow> int \<Rightarrow> string" where
  "slice_from s pos =
     (let n = int (length s);
          start = (if pos < 0 then max 0 (n + pos) else min pos n)
      in drop (nat start) s)"

record poll_reply =
  r_text :: string
  r_pos :: int
  r_done :: bool
  r_returncode :: "int option"

text \<open>The handler of \<open>/api/job/poll\<close>; \<open>None\<close> is the answer 404 for an unknown job.\<close>

definition poll_job :: "job \<Rightarrow> int \<Rightarrow> poll_reply" where
  "poll_job j pos =
     \<lparr>r_text = (if pos < int (length (out_text j)) then slice_from (out_text j) pos else []),
      r_pos = int (length (out_text j)),
      r_done = is_done j,
      r_returncode = returncode j\<rparr>"

definition poll :: "(string \<times> job) list \<Rightarrow> string \<Rightarrow> int \<Rightarrow> poll_reply option" where
  "poll jobs jid pos = map_option (\<lambda>j. poll_job j pos) (get_job jobs jid)"

text \<open>
  The polling of \<open>startPolling\<close> in the page: the first request passes 0, each later
  one the \<open>pos\<close> of the reply before.  \<open>js\<close> are the states of the job at the requests.
\<close>

fun poll_chain :: "int \<Rightarrow> job list \<Rightarrow> poll_reply list" where
  "poll_chain jobPos [] = []"
| "poll_chain jobPos (j # js) = poll_job j jobPos # poll_chain (r_pos (poll_job j jobPos)) js"

text \<open>The buffer of a job only grows: each state extends the text of the one before.\<close>

fun append_only :: "string \<Rightarrow> job list \<Rightarrow> bool" where
  "append_only b [] = True"
| "append_only b (j # js) = (take (length b) (out_text j) = b \<and> append_only (out_text j) js)"

section \<open>Auxiliary definitions\<close>

text \<open>
  Two abbreviations for the proofs about \<open>diff_envs\<close>: the test that sends an item of
  the target to \<open>installs\<close>, and the entry it appends there.
\<close>

definition is_install :: "pkgdict \<Rightarrow> string \<times> pkg \<Rightarrow> bool" where
  "is_install cur kt \<longleftrightarrow>
     (case dict_get cur (fst kt) of None \<Rightarrow> True | Some c \<Rightarrow> version c \<noteq> version (snd kt))"

definition mk_install :: "pkgdict \<Rightarrow> string \<times> pkg \<Rightarrow> install" where
  "mk_install cur kt =
     \<lparr>i_name = name (snd kt), i_from = map_option version (dict_get cur (fst kt)),
      i_to = version (snd kt)\<rparr>"

text \<open>
  For the proofs about \<open>parse_requirements_text\<close>: what every stored entry satisfies
  with respect to the lines \<open>ls\<close> of the text, and the lines that \<open>save_snapshot\<close>
  counts.
\<close>

definition pin_ok :: "string list \<Rightarrow> string \<times> pkg \<Rightarrow> bool" where
  "pin_ok ls ke \<longleftrightarrow>
     fst ke = lower (name (snd ke)) \<and>
     (\<exists>l \<in> set ls. strip l = name (snd ke) @ ''=='' @ version (snd ke)) \<and>
     \<not> contains ''=='' (name (snd ke) @ ''='')"

definition counted :: "string \<Rightarrow> bool" where
  "counted l \<longleftrightarrow> l \<noteq> [] \<and> \<not> startswith l ''#''"


section \<open>Properties of the diff\<close>

lemma diff_target_loop_eq:
  "diff_target_loop cur ts (ins, un) =
     (ins @ map (mk_install cur) (filter (is_install cur) ts),
      un @ map (\<lambda>kt. \<lparr>name = name (snd kt), version = version (snd kt)\<rparr>)
             (filter (\<lambda>kt. \<not> is_install cur kt) ts))"
  by (induction ts arbitrary: ins un)
     (auto simp: is_install_def mk_install_def split: option.splits)

lemma diff_current_loop_eq:
  "diff_current_loop tgt cs un =
     un @ map (\<lambda>kc. \<lparr>u_name = name (snd kc), u_from = version (snd kc)\<rparr>)
            (filter (\<lambda>kc. \<not> dict_has tgt (fst kc)) cs)"
  by (induction cs arbitrary: un) auto

lemma diff_envs_eq:
  "diff_envs cur tgt =
     (map (mk_install cur) (filter (is_install cur) tgt),
      map (\<lambda>kc. \<lparr>u_name = name (snd kc), u_from = version (snd kc)\<rparr>)
            (filter (\<lambda>kc. \<not> dict_has tgt (fst kc)) cur),
      map (\<lambda>kt. \<lparr>name = name (snd kt), version = version (snd kt)\<rparr>)
             (filter (\<lambda>kt. \<not> is_install cur kt) tgt))"
  by (simp add: diff_envs_def diff_target_loop_eq diff_current_loop_eq)

lemma wf_key: "wf_pkgset d \<Longrightarrow> (k, e) \<in> set d \<Longrightarrow> lower (name e) = k"
  by (auto simp: wf_pkgset_def)

lemma install_keys_diff:
  assumes "wf_pkgset tgt"
  shows "install_keys (fst (diff_envs cur tgt)) = fst ` {kt \<in> set tgt. is_install cur kt}"
  using assms by (force simp: diff_envs_eq install_keys_def mk_install_def image_iff dest: wf_key)

lemma unchanged_keys_diff:
  assumes "wf_pkgset tgt"
  shows "unchanged_keys (snd (snd (diff_envs cur tgt))) = fst ` {kt \<in> set tgt. \<not> is_install cur kt}"
  using assms by (force simp: diff_envs_eq unchanged_keys_def image_iff dest: wf_key)

lemma uninstall_keys_diff:
  assumes "wf_pkgset cur"
  shows "uninstall_keys (fst (snd (diff_envs cur tgt))) = fst ` {kc \<in> set cur. \<not> dict_has tgt (fst kc)}"
  using assms by (force simp: diff_envs_eq uninstall_keys_def image_iff dest: wf_key)

lemma dict_has_iff: "dict_has d k \<longleftrightarrow> dict_get d k \<noteq> None"
  by (simp add: dict_has_def dict_get_def map_of_eq_None_iff)

lemma wf_get_iff: "wf_pkgset d \<Longrightarrow> dict_get d k = Some e \<longleftrightarrow> (k, e) \<in> set d"
  by (auto simp: wf_pkgset_def dict_get_def dest: map_of_SomeD)

text \<open>
  C1.  For two package sets \<open>S\<close> and \<open>T\<close> (distinct keys, each the lowercase form of the
  stored name), the keys of the installs, uninstalls and unchanged lists of
  \<open>diff_envs S T\<close>, taken as the lowercase form of each entry's name, are pairwise
  disjoint and together are the keys of \<open>S\<close> and of \<open>T\<close>.  A key is unchanged exactly when
  both sides hold it with the same version, an install exactly when the target holds it
  and the source lacks it or holds another version, and an uninstall exactly when only
  the source holds it.
\<close>

theorem diff_envs_partition:
  assumes S: "wf_pkgset S" and T: "wf_pkgset T"
    and d: "diff_envs S T = (ins, uns, unch)"
  shows "install_keys ins \<union> uninstall_keys uns \<union> unchanged_keys unch
           = fst ` set S \<union> fst ` set T
       \<and> install_keys ins \<inter> uninstall_keys uns = {}
       \<and> install_keys ins \<inter> unchanged_keys unch = {}
       \<and> uninstall_keys uns \<inter> unchanged_keys unch = {}
       \<and> (\<forall>k. k \<in> unchanged_keys unch \<longleftrightarrow>
              (\<exists>c t. dict_get S k = Some c \<and> dict_get T k = Some t \<and> version c = version t))
       \<and> (\<forall>k. k \<in> install_keys ins \<longleftrightarrow>
              (\<exists>t. dict_get T k = Some t \<and>
                   (dict_get S k = None \<or> (\<exists>c. dict_get S k = Some c \<and> version c \<noteq> version t))))
       \<and> (\<forall>k. k \<in> uninstall_keys uns \<longleftrightarrow> dict_get S k \<noteq> None \<and> dict_get T k = None)"
proof -
  have I: "install_keys ins = fst ` {kt \<in> set T. is_install S kt}"
    using install_keys_diff [OF T, of S] d by simp
  have U: "uninstall_keys uns = fst ` {kc \<in> set S. \<not> dict_has T (fst kc)}"
    using uninstall_keys_diff [OF S, of T] d by simp
  have N: "unchanged_keys unch = fst ` {kt \<in> set T. \<not> is_install S kt}"
    using unchanged_keys_diff [OF T, of S] d by simp
  have cI: "k \<in> install_keys ins \<longleftrightarrow>
              (\<exists>t. dict_get T k = Some t \<and>
                   (dict_get S k = None \<or> (\<exists>c. dict_get S k = Some c \<and> version c \<noteq> version t)))" for k
    unfolding I using T
    by (auto simp: wf_get_iff is_install_def image_iff split: option.splits)
  have cN: "k \<in> unchanged_keys unch \<longleftrightarrow>
              (\<exists>c t. dict_get S k = Some c \<and> dict_get T k = Some t \<and> version c = version t)" for k
    unfolding N using T
    by (auto simp: wf_get_iff is_install_def image_iff split: option.splits)
  have cU: "k \<in> uninstall_keys uns \<longleftrightarrow> dict_get S k \<noteq> None \<and> dict_get T k = None" for k
    unfolding U using S
    by (auto simp: wf_get_iff dict_has_iff image_iff)
  have keys: "k \<in> fst ` set d \<longleftrightarrow> dict_get d k \<noteq> None" for k and d :: pkgdict
    using dict_has_iff [of d k] by (simp add: dict_has_def)
  have un: "install_keys ins \<union> uninstall_keys uns \<union> unchanged_keys unch
           = fst ` set S \<union> fst ` set T"
  proof (rule set_eqI)
    fix k
    show "k \<in> install_keys ins \<union> uninstall_keys uns \<union> unchanged_keys unch
          \<longleftrightarrow> k \<in> fst ` set S \<union> fst ` set T"
      unfolding Un_iff cI cN cU keys by (cases "dict_get S k"; cases "dict_get T k") auto
  qed
  have d1: "install_keys ins \<inter> uninstall_keys uns = {}"
    using cI cU by auto
  have d2: "install_keys ins \<inter> unchanged_keys unch = {}"
    using cI cN by fastforce
  have d3: "uninstall_keys uns \<inter> unchanged_keys unch = {}"
    using cU cN by fastforce
  from un d1 d2 d3 cI cN cU show ?thesis by blast
qed

theorem diff_envs_partition_witness:
  "wf_pkgset [(''a'', \<lparr>name = ''A'', version = ''1.0''\<rparr>), (''b'', \<lparr>name = ''b'', version = ''2.0''\<rparr>),
              (''d'', \<lparr>name = ''d'', version = ''4.0''\<rparr>)]
   \<and> wf_pkgset [(''a'', \<lparr>name = ''a'', version = ''1.1''\<rparr>), (''b'', \<lparr>name = ''B'', version = ''2.0''\<rparr>),
                (''c'', \<lparr>name = ''c'', version = ''3.0''\<rparr>)]
   \<and> diff_envs
        [(''a'', \<lparr>name = ''A'', version = ''1.0''\<rparr>), (''b'', \<lparr>name = ''b'', version = ''2.0''\<rparr>),
         (''d'', \<lparr>name = ''d'', version = ''4.0''\<rparr>)]
        [(''a'', \<lparr>name = ''a'', version = ''1.1''\<rparr>), (''b'', \<lparr>name = ''B'', version = ''2.0''\<rparr>),
         (''c'', \<lparr>name = ''c'', version = ''3.0''\<rparr>)]
      = ([\<lparr>i_name = ''a'', i_from = Some ''1.0'', i_to = ''1.1''\<rparr>,
          \<lparr>i_name = ''c'', i_from = None, i_to = ''3.0''\<rparr>],
         [\<lparr>u_name = ''d'', u_from = ''4.0''\<rparr>],
         [\<lparr>name = ''B'', version = ''2.0''\<rparr>])
   \<and> install_keys [\<lparr>i_name = ''a'', i_from = Some ''1.0'', i_to = ''1.1''\<rparr>,
                    \<lparr>i_name = ''c'', i_from = None, i_to = ''3.0''\<rparr>]
       \<inter> unchanged_keys [\<lparr>name = ''B'', version = ''2.0''\<rparr>] = {}"
proof -
  let ?S = "[(''a'', \<lparr>name = ''A'', version = ''1.0''\<rparr>), (''b'', \<lparr>name = ''b'', version = ''2.0''\<rparr>),
             (''d'', \<lparr>name = ''d'', version = ''4.0''\<rparr>)]"
  let ?T = "[(''a'', \<lparr>name = ''a'', version = ''1.1''\<rparr>), (''b'', \<lparr>name = ''B'', version = ''2.0''\<rparr>),
             (''c'', \<lparr>name = ''c'', version = ''3.0''\<rparr>)]"
  have h1: "wf_pkgset ?S" by code_simp
  have h2: "wf_pkgset ?T" by code_simp
  have h3: "diff_envs ?S ?T
      = ([\<lparr>i_name = ''a'', i_from = Some ''1.0'', i_to = ''1.1''\<rparr>,
          \<lparr>i_name = ''c'', i_from = None, i_to = ''3.0''\<rparr>],
         [\<lparr>u_name = ''d'', u_from = ''4.0''\<rparr>],
         [\<lparr>name = ''B'', version = ''2.0''\<rparr>])" by code_simp
  from diff_envs_partition [OF h1 h2 h3] h1 h2 h3 show ?thesis by blast
qed

lemma filter_install_self:
  "distinct (map fst S) \<Longrightarrow> filter (is_install S) S = []"
  by (auto simp: filter_empty_conv is_install_def dict_get_def map_of_eq_None_iff
        split: option.splits dest: map_of_SomeD eq_key_imp_eq_value intro: rev_image_eqI)

text \<open>
  C8.  For a package set \<open>S\<close>, \<open>diff_envs S S\<close> has no installs and no uninstalls, and its
  unchanged list is the entries of \<open>S\<close> in the order of \<open>S\<close>, so that the lowercase
  names of the unchanged list are exactly the keys of \<open>S\<close>.
\<close>

theorem diff_envs_self:
  assumes "wf_pkgset S"
  shows "diff_envs S S = ([], [], map snd S) \<and> map (\<lambda>e. lower (name e)) (map snd S) = map fst S"
proof -
  from assms have dist: "distinct (map fst S)" by (simp add: wf_pkgset_def)
  have a: "filter (is_install S) S = []" by (rule filter_install_self [OF dist])
  then have b: "filter (\<lambda>kt. \<not> is_install S kt) S = S"
    by (simp add: filter_empty_conv filter_id_conv)
  have c: "filter (\<lambda>kc. \<not> dict_has S (fst kc)) S = []"
    by (auto simp: filter_empty_conv dict_has_def)
  have "diff_envs S S = ([], [], map snd S)"
    by (simp add: diff_envs_eq a b c)
  moreover have "map (\<lambda>e. lower (name e)) (map snd S) = map fst S"
    using assms by (auto simp: wf_pkgset_def)
  ultimately show ?thesis by simp
qed

theorem diff_envs_self_witness:
  "wf_pkgset [(''a'', \<lparr>name = ''A'', version = ''1.0''\<rparr>), (''b'', \<lparr>name = ''b'', version = ''2.0''\<rparr>)]
   \<and> diff_envs
        [(''a'', \<lparr>name = ''A'', version = ''1.0''\<rparr>), (''b'', \<lparr>name = ''b'', version = ''2.0''\<rparr>)]
        [(''a'', \<lparr>name = ''A'', version = ''1.0''\<rparr>), (''b'', \<lparr>name = ''b'', version = ''2.0''\<rparr>)]
      = ([], [], [\<lparr>name = ''A'', version = ''1.0''\<rparr>, \<lparr>name = ''b'', version = ''2.0''\<rparr>])"
proof -
  have h: "wf_pkgset [(''a'', \<lparr>name = ''A'', version = ''1.0''\<rparr>),
                      (''b'', \<lparr>name = ''b'', version = ''2.0''\<rparr>)]"
    by code_simp
  from diff_envs_self [OF h] h show ?thesis by simp
qed

section \<open>Properties of the parser\<close>

lemma split_once_eq:
  "contains sep s \<Longrightarrow> sep \<noteq> [] \<Longrightarrow> split_once sep s = (a, b) \<Longrightarrow> s = a @ sep @ b"
proof (induction s arbitrary: a b)
  case Nil
  then show ?case by simp
next
  case (Cons c cs)
  show ?case
  proof (cases "startswith (c # cs) sep")
    case True
    then have "c # cs = sep @ drop (length sep) (c # cs)"
      unfolding startswith_def by (metis append_take_drop_id)
    with True Cons.prems show ?thesis by auto
  next
    case False
    with Cons.prems have c: "contains sep cs" by simp
    obtain a' b' where ab: "split_once sep cs = (a', b')" by (cases "split_once sep cs")
    with False Cons.prems have "a = c # a'" "b = b'" by auto
    with Cons.IH [OF c Cons.prems(2) ab] show ?thesis by simp
  qed
qed

lemma contains_length: "contains sep s \<Longrightarrow> length sep \<le> length s"
proof (induction s)
  case Nil
  then show ?case by simp
next
  case (Cons c cs)
  show ?case
  proof (cases "startswith (c # cs) sep")
    case True
    then have "length (take (length sep) (c # cs)) = length sep"
      by (simp only: startswith_def)
    then show ?thesis by (simp add: min_def split: if_splits)
  next
    case False
    with Cons show ?thesis by auto
  qed
qed

text \<open>
  The split is at the first occurrence: the part before it, followed by the separator
  without its last character, holds no occurrence of the separator.
\<close>

lemma split_once_first:
  "contains sep s \<Longrightarrow> sep \<noteq> [] \<Longrightarrow> split_once sep s = (a, b) \<Longrightarrow>
     \<not> contains sep (a @ butlast sep)"
proof (induction s arbitrary: a b)
  case Nil
  then show ?case by simp
next
  case (Cons c cs)
  show ?case
  proof (cases "startswith (c # cs) sep")
    case True
    with Cons.prems have a: "a = []" by simp
    have "\<not> length sep \<le> length (butlast sep)"
      using Cons.prems(2) by (cases sep rule: rev_cases) simp_all
    then show ?thesis
      using contains_length [of sep "butlast sep"] by (auto simp: a)
  next
    case False
    with Cons.prems have c: "contains sep cs" by simp
    obtain a' b' where ab: "split_once sep cs = (a', b')" by (cases "split_once sep cs")
    with False Cons.prems have a: "a = c # a'" and b: "b = b'" by auto
    from split_once_eq [OF c Cons.prems(2) ab] have cs: "cs = a' @ sep @ b'" .
    have ih: "\<not> contains sep (a' @ butlast sep)"
      by (rule Cons.IH [OF c Cons.prems(2) ab])
    have "\<not> startswith (c # a' @ butlast sep) sep"
    proof
      assume st: "startswith (c # a' @ butlast sep) sep"
      then have t: "take (length sep) (c # a' @ butlast sep) = sep"
        by (simp only: startswith_def)
      then have "length (take (length sep) (c # a' @ butlast sep)) = length sep"
        by simp
      then have le: "length sep \<le> length (c # a' @ butlast sep)"
        by (simp add: min_def split: if_splits)
      have "c # cs = (c # a' @ butlast sep) @ [last sep] @ b'"
        using cs Cons.prems(2) by simp
      then have "take (length sep) (c # cs) = take (length sep) (c # a' @ butlast sep)"
        using le by (simp del: append.simps)
      with t have "startswith (c # cs) sep"
        by (simp only: startswith_def)
      with False show False by simp
    qed
    with ih show ?thesis by (simp add: a)
  qed
qed

lemma dict_get_set: "dict_get (dict_set d k v) k' = (if k' = k then Some v else dict_get d k')"
  by (induction d k v rule: dict_set.induct) (auto simp: dict_get_def)

lemma dict_has_set: "dict_has (dict_set d k v) k' \<longleftrightarrow> k' = k \<or> dict_has d k'"
  by (simp add: dict_has_iff dict_get_set)

lemma set_dict_set: "set (dict_set d k v) \<subseteq> insert (k, v) (set d)"
  by (induction d k v rule: dict_set.induct) auto

lemma length_dict_set: "length (dict_set d k v) \<le> Suc (length d)"
  by (induction d k v rule: dict_set.induct) auto

lemma parse_line_pins:
  assumes "\<forall>ke \<in> set (fst st). pin_ok ls ke" and "l \<in> set ls"
  shows "\<forall>ke \<in> set (fst (parse_line l st)). pin_ok ls ke"
proof -
  obtain pkgs others where st: "st = (pkgs, others)" by (cases st)
  show ?thesis
  proof (cases "contains ''=='' (strip l)")
    case False
    with assms st show ?thesis by (auto simp: parse_line_def Let_def)
  next
    case True
    obtain nm ver where sp: "split_once ''=='' (strip l) = (nm, ver)"
      by (cases "split_once ''=='' (strip l)")
    from split_once_eq [OF True _ sp] have eq: "strip l = nm @ ''=='' @ ver" by simp
    from split_once_first [OF True _ sp] have first: "\<not> contains ''=='' (nm @ ''='')" by simp
    have new: "pin_ok ls (lower nm, \<lparr>name = nm, version = ver\<rparr>)"
      using eq first assms(2) unfolding pin_ok_def by fastforce
    have "set (fst (parse_line l st)) \<subseteq> insert (lower nm, \<lparr>name = nm, version = ver\<rparr>) (set pkgs)"
      using set_dict_set [of pkgs "lower nm" "\<lparr>name = nm, version = ver\<rparr>"] sp st
      by (auto simp: parse_line_def Let_def)
    with new assms(1) st show ?thesis by auto
  qed
qed

lemma parse_lines_pins:
  assumes "\<forall>ke \<in> set (fst st). pin_ok ls ke" and "set xs \<subseteq> set ls"
  shows "\<forall>ke \<in> set (fst (parse_lines xs st)). pin_ok ls ke"
  using assms
proof (induction xs arbitrary: st)
  case Nil
  then show ?case by simp
next
  case (Cons x xs)
  from Cons.prems have "\<forall>ke \<in> set (fst (parse_line x st)). pin_ok ls ke"
    by (intro parse_line_pins) auto
  with Cons show ?case by simp
qed

lemma keys_dict_set: "set (map fst (dict_set d k v)) = insert k (set (map fst d))"
  by (induction d k v rule: dict_set.induct) auto

lemma distinct_dict_set: "distinct (map fst d) \<Longrightarrow> distinct (map fst (dict_set d k v))"
proof (induction d k v rule: dict_set.induct)
  case (1 k v)
  then show ?case by simp
next
  case (2 k' v' d k v)
  then show ?case using keys_dict_set [of d k v] by auto
qed

lemma parse_line_distinct:
  "distinct (map fst (fst st)) \<Longrightarrow> distinct (map fst (fst (parse_line l st)))"
  by (cases st) (auto simp: parse_line_def Let_def distinct_dict_set split: prod.splits)

lemma parse_lines_distinct:
  "distinct (map fst (fst st)) \<Longrightarrow> distinct (map fst (fst (parse_lines ls st)))"
  by (induction ls arbitrary: st) (simp_all add: parse_line_distinct)

text \<open>The dictionary that the parser returns is a package set in the sense of \<open>wf_pkgset\<close>.\<close>

lemma parse_wf: "wf_pkgset (fst (parse_requirements_text txt))"
proof -
  have "\<forall>ke \<in> set (fst (parse_lines (splitlines txt) ([], []))). pin_ok (splitlines txt) ke"
    by (rule parse_lines_pins) simp_all
  moreover have "distinct (map fst (fst (parse_lines (splitlines txt) ([], []))))"
    by (rule parse_lines_distinct) simp
  ultimately show ?thesis
    unfolding wf_pkgset_def parse_requirements_text_def pin_ok_def by fastforce
qed

text \<open>
  C6 (as amended).  Every entry that \<open>parse_requirements_text\<close> stores has as key the
  lowercase form of its name, and its name, the text \<open>==\<close> and its version together are
  one of the lines of the input, stripped, split at the first \<open>==\<close> of that line: no
  \<open>==\<close> starts before the one that separates them.  The version is whatever follows,
  which may be nothing.
\<close>

theorem parse_entries:
  assumes "(k, e) \<in> set (fst (parse_requirements_text txt))"
  shows "k = lower (name e) \<and>
         (\<exists>l \<in> set (splitlines txt). strip l = name e @ ''=='' @ version e) \<and>
         \<not> contains ''=='' (name e @ ''='')"
proof -
  have "\<forall>ke \<in> set (fst (parse_lines (splitlines txt) ([], []))). pin_ok (splitlines txt) ke"
    by (rule parse_lines_pins) simp_all
  with assms show ?thesis
    unfolding parse_requirements_text_def pin_ok_def by fastforce
qed

theorem parse_entries_witness:
  "(''bar'', \<lparr>name = ''Bar'', version = ''2==3''\<rparr>)
     \<in> set (fst (parse_requirements_text (''Foo==1.0'' @ [CHR 0x0A] @ '' Bar==2==3'')))
   \<and> ''bar'' = lower ''Bar''
   \<and> (\<exists>l \<in> set (splitlines (''Foo==1.0'' @ [CHR 0x0A] @ '' Bar==2==3'')). strip l = ''Bar==2==3'')
   \<and> \<not> contains ''=='' ''Bar=''"
proof -
  have p: "fst (parse_requirements_text (''Foo==1.0'' @ [CHR 0x0A] @ '' Bar==2==3'')) =
    [(''foo'', \<lparr>name = ''Foo'', version = ''1.0''\<rparr>),
     (''bar'', \<lparr>name = ''Bar'', version = ''2==3''\<rparr>)]"
    by code_simp
  have m: "(''bar'', \<lparr>name = ''Bar'', version = ''2==3''\<rparr>)
     \<in> set (fst (parse_requirements_text (''Foo==1.0'' @ [CHR 0x0A] @ '' Bar==2==3'')))"
    unfolding p by simp
  from parse_entries [OF m] m show ?thesis by simp
qed

text \<open>The line \<open>foo==\<close> is stored as the package \<open>foo\<close> with the empty version.\<close>

theorem parse_empty_version:
  "parse_requirements_text ''foo=='' = ([(''foo'', \<lparr>name = ''foo'', version = []\<rparr>)], [])"
  by code_simp

lemma strip_Nil: "strip [] = []"
  by (simp add: strip_def)

lemma strip_hash: "startswith l ''#'' \<Longrightarrow> startswith (strip l) ''#''"
proof -
  assume "startswith l ''#''"
  then obtain r where l: "l = CHR ''#'' # r"
    by (cases l) (auto simp: startswith_def)
  have ns: "\<not> is_space CHR ''#''" by (simp add: is_space_def)
  have "strip l = CHR ''#'' # rev (dropWhile is_space (rev r))"
    using ns by (simp add: strip_def l dropWhile_append3)
  then show ?thesis by (simp add: startswith_def)
qed

lemma parse_line_length:
  "length (fst (parse_line l st)) \<le> length (fst st) + (if counted l then 1 else 0)"
proof -
  obtain pkgs others where st: "st = (pkgs, others)" by (cases st)
  show ?thesis
  proof (cases "strip l = [] \<or> startswith (strip l) ''#''")
    case True
    then show ?thesis by (simp add: parse_line_def st)
  next
    case False
    then have "counted l"
      using strip_Nil strip_hash unfolding counted_def by auto
    moreover have "length (fst (parse_line l st)) \<le> Suc (length pkgs)"
      using length_dict_set [of pkgs]
      by (auto simp: parse_line_def st Let_def split: prod.splits intro: le_SucI)
    ultimately show ?thesis by (simp add: st)
  qed
qed

lemma parse_lines_length:
  "length (fst (parse_lines ls st)) \<le> length (fst st) + length (filter counted ls)"
proof (induction ls arbitrary: st)
  case Nil
  then show ?case by simp
next
  case (Cons l ls)
  have "length (fst (parse_lines (l # ls) st)) \<le> length (fst (parse_line l st)) + length (filter counted ls)"
    using Cons.IH [of "parse_line l st"] by simp
  also have "\<dots> \<le> length (fst st) + (if counted l then 1 else 0) + length (filter counted ls)"
    using parse_line_length [of l st] by simp
  finally show ?case by (simp split: if_splits)
qed

text \<open>
  C2 (as amended).  When \<open>save_snapshot\<close> succeeds, the metadata it returns is the
  metadata it has written to the \<open>.json\<close> file of the new id, and the \<open>count\<close> persisted
  there is the number of lines of the frozen text that are not empty and do not start
  with \<open>#\<close>.  It is at least the number of pinned entries that
  \<open>parse_requirements_text\<close> finds in that text.
\<close>

theorem save_snapshot_count:
  assumes "save_snapshot e unwritable ts req_text st nm comment = (Inr m, st')"
  shows "dict_get (json_files st') (m_id m) = Some (Meta m)
       \<and> m_count m = length (filter (\<lambda>l. l \<noteq> [] \<and> \<not> startswith l ''#'') (splitlines req_text))
       \<and> length (fst (parse_requirements_text req_text)) \<le> m_count m"
proof -
  have ce: "(\<lambda>l. l \<noteq> [] \<and> \<not> startswith l ''#'') = counted"
    by (simp add: counted_def fun_eq_iff)
  from assms have c: "m_count m = length (filter counted (splitlines req_text))"
    unfolding ce [symmetric] by (auto simp: save_snapshot_def Let_def split: if_splits)
  from assms have p: "dict_get (json_files st') (m_id m) = Some (Meta m)"
    by (auto simp: save_snapshot_def Let_def dict_get_set split: if_splits)
  have "length (fst (parse_requirements_text req_text)) \<le> length (filter counted (splitlines req_text))"
    using parse_lines_length [of "splitlines req_text" "([], [])"]
    by (simp add: parse_requirements_text_def)
  with c p show ?thesis unfolding ce by simp
qed

theorem save_snapshot_count_witness:
  "save_snapshot \<lparr>python = ''python3'', mode = ''venv'', snap_dir = ''/data/snaps''\<rparr> []
      ''20240101_120000'' (''six==1.16.0'' @ [CHR 0x0A] @ ''six==1.16.0'' @ [CHR 0x0A])
      \<lparr>json_files = [], txt_files = []\<rparr> ''env'' []
     = (Inr \<lparr>m_id = ''env_20240101_120000'', m_name = ''env'', m_comment = [],
        m_created_utc = JStr ''20240101_120000'', m_python = ''python3'', m_mode = ''venv'',
        m_count = 2, m_requirements = ''env_20240101_120000.txt'',
        m_dir = ''/data/snaps'', m_path = ''/data/snaps/env_20240101_120000.txt''\<rparr>,
        \<lparr>json_files = [(''env_20240101_120000'', Meta \<lparr>m_id = ''env_20240101_120000'', m_name = ''env'', m_comment = [],
        m_created_utc = JStr ''20240101_120000'', m_python = ''python3'', m_mode = ''venv'',
        m_count = 2, m_requirements = ''env_20240101_120000.txt'',
        m_dir = ''/data/snaps'', m_path = ''/data/snaps/env_20240101_120000.txt''\<rparr>)],
         txt_files = [(''env_20240101_120000'', ''six==1.16.0'' @ [CHR 0x0A] @ ''six==1.16.0'' @ [CHR 0x0A])]\<rparr>)
   \<and> dict_get [(''env_20240101_120000'', Meta \<lparr>m_id = ''env_20240101_120000'', m_name = ''env'', m_comment = [],
        m_created_utc = JStr ''20240101_120000'', m_python = ''python3'', m_mode = ''venv'',
        m_count = 2, m_requirements = ''env_20240101_120000.txt'',
        m_dir = ''/data/snaps'', m_path = ''/data/snaps/env_20240101_120000.txt''\<rparr>)] ''env_20240101_120000''
     = Some (Meta \<lparr>m_id = ''env_20240101_120000'', m_name = ''env'', m_comment = [],
        m_created_utc = JStr ''20240101_120000'', m_python = ''python3'', m_mode = ''venv'',
        m_count = 2, m_requirements = ''env_20240101_120000.txt'',
        m_dir = ''/data/snaps'', m_path = ''/data/snaps/env_20240101_120000.txt''\<rparr>)
   \<and> length (fst (parse_requirements_text (''six==1.16.0'' @ [CHR 0x0A] @ ''six==1.16.0'' @ [CHR 0x0A]))) \<le> (2::nat)"
proof -
  let ?m = "\<lparr>m_id = ''env_20240101_120000'', m_name = ''env'', m_comment = [],
        m_created_utc = JStr ''20240101_120000'', m_python = ''python3'', m_mode = ''venv'',
        m_count = 2, m_requirements = ''env_20240101_120000.txt'',
        m_dir = ''/data/snaps'', m_path = ''/data/snaps/env_20240101_120000.txt''\<rparr>"
  have h: "save_snapshot \<lparr>python = ''python3'', mode = ''venv'', snap_dir = ''/data/snaps''\<rparr> []
      ''20240101_120000'' (''six==1.16.0'' @ [CHR 0x0A] @ ''six==1.16.0'' @ [CHR 0x0A])
      \<lparr>json_files = [], txt_files = []\<rparr> ''env'' []
     = (Inr ?m,
        \<lparr>json_files = [(''env_20240101_120000'', Meta ?m)],
         txt_files = [(''env_20240101_120000'', ''six==1.16.0'' @ [CHR 0x0A] @ ''six==1.16.0'' @ [CHR 0x0A])]\<rparr>)"
    by code_simp
  from save_snapshot_count [OF h] h show ?thesis by simp
qed

text \<open>
  A frozen text with one pin and one package installed from a URL: the count written
  to the metadata file is 2, the pinned entries are one.
\<close>

theorem save_snapshot_count_not_pins:
  "save_snapshot \<lparr>python = ''python3'', mode = ''venv'', snap_dir = ''/data/snaps''\<rparr> []
      ''20240101_120000'' (''requests==2.31.0'' @ [CHR 0x0A] @ ''mypkg @ file:///tmp/mypkg'' @ [CHR 0x0A])
      \<lparr>json_files = [], txt_files = []\<rparr> ''my env'' ''c''
     = (Inr \<lparr>m_id = ''my_env_20240101_120000'', m_name = ''my env'', m_comment = ''c'',
        m_created_utc = JStr ''20240101_120000'', m_python = ''python3'', m_mode = ''venv'',
        m_count = 2, m_requirements = ''my_env_20240101_120000.txt'',
        m_dir = ''/data/snaps'', m_path = ''/data/snaps/my_env_20240101_120000.txt''\<rparr>,
        \<lparr>json_files = [(''my_env_20240101_120000'', Meta \<lparr>m_id = ''my_env_20240101_120000'', m_name = ''my env'', m_comment = ''c'',
        m_created_utc = JStr ''20240101_120000'', m_python = ''python3'', m_mode = ''venv'',
        m_count = 2, m_requirements = ''my_env_20240101_120000.txt'',
        m_dir = ''/data/snaps'', m_path = ''/data/snaps/my_env_20240101_120000.txt''\<rparr>)],
         txt_files = [(''my_env_20240101_120000'', ''requests==2.31.0'' @ [CHR 0x0A] @ ''mypkg @ file:///tmp/mypkg'' @ [CHR 0x0A])]\<rparr>)
   \<and> parse_requirements_text (''requests==2.31.0'' @ [CHR 0x0A] @ ''mypkg @ file:///tmp/mypkg'' @ [CHR 0x0A])
     = ([(''requests'', \<lparr>name = ''requests'', version = ''2.31.0''\<rparr>)],
        [''mypkg @ file:///tmp/mypkg''])"
  by code_simp

section \<open>Properties of the snapshot store\<close>

lemma load_metas_eq:
  "load_metas js acc = acc @ filter (\<lambda>d. d \<noteq> Unreadable) (map snd js)"
  by (induction js acc rule: load_metas.induct) auto

lemma set_load_metas:
  "set (load_metas js []) = {d \<in> snd ` set js. d \<noteq> Unreadable}"
  by (auto simp: load_metas_eq)


text \<open>
  The two ways in which the sort of \<open>list_snapshots\<close> raises: a \<open>.json\<close> file that holds a
  value which is not an object, and two objects of which one has a string and the
  other a number as \<open>created_utc\<close>.
\<close>

lemma list_snapshots_non_object:
  assumes "(k, NonObject b) \<in> set (json_files st)"
  shows "list_snapshots st = Inl AttributeError"
proof -
  from assms have "NonObject b \<in> set (load_metas (json_files st) [])"
    by (force simp: load_metas_eq)
  moreover have "\<not> is_object (NonObject b)"
    by (simp add: is_object_def)
  ultimately have "list_ex (\<lambda>d. \<not> is_object d) (load_metas (json_files st) [])"
    unfolding list_ex_iff by blast
  then show ?thesis by (simp add: list_snapshots_def)
qed

lemma list_snapshots_mixed_keys:
  assumes "(k1, Meta m1) \<in> set (json_files st)" and "is_str (m_created_utc m1)"
    and "(k2, Meta m2) \<in> set (json_files st)" and "\<not> is_str (m_created_utc m2)"
    and "\<forall>b. NonObject b \<notin> snd ` set (json_files st)"
  shows "list_snapshots st = Inl TypeError"
proof -
  let ?metas = "load_metas (json_files st) []"
  let ?objs = "concat (map (\<lambda>d. case d of Meta m \<Rightarrow> [m] | _ \<Rightarrow> []) ?metas)"
  have no: "\<not> list_ex (\<lambda>d. \<not> is_object d) ?metas"
  proof -
    have "is_object d" if "d \<in> set ?metas" for d
    proof -
      from that have "d \<in> snd ` set (json_files st)" and "d \<noteq> Unreadable"
        unfolding set_load_metas by simp_all
      with assms(5) show ?thesis
        by (cases d) (auto simp: is_object_def)
    qed
    then show ?thesis unfolding list_ex_iff by blast
  qed
  have objs: "set ?objs = {m. \<exists>k. (k, Meta m) \<in> set (json_files st)}"
    by (force simp: load_metas_eq split: json_file.splits)
  from assms(1,3) objs have "m1 \<in> set ?objs" "m2 \<in> set ?objs" by auto
  with assms(2,4) have "list_ex is_str (map m_created_utc ?objs)"
    and "list_ex (\<lambda>c. \<not> is_str c) (map m_created_utc ?objs)"
    by (auto simp: list_ex_iff)
  with no show ?thesis unfolding list_snapshots_def Let_def by simp
qed




text \<open>
  C4 (as amended).  Two saves under the same name whose timestamps differ, both
  succeeding, give two different ids; after the second save each id is found by
  \<open>get_snapshot\<close> with its own metadata, and reading its payload file gives the text
  frozen at its own save.
\<close>

theorem save_twice:
  assumes s1: "save_snapshot e uw1 ts1 text1 st nm c1 = (Inr m1, st1)"
    and s2: "save_snapshot e uw2 ts2 text2 st1 nm c2 = (Inr m2, st2)"
    and ts: "ts1 \<noteq> ts2"
  shows "m_id m1 \<noteq> m_id m2
       \<and> get_snapshot e st2 (m_id m1) = Inr (Some (Meta m1, m_path m1))
       \<and> read_text st2 (m_id m1) = Inr (universal_newlines text1)
       \<and> get_snapshot e st2 (m_id m2) = Inr (Some (Meta m2, m_path m2))
       \<and> read_text st2 (m_id m2) = Inr (universal_newlines text2)"
proof -
  define p where "p = (if safe_name nm = [] then ''snapshot'' else safe_name nm) @ ''_''"
  let ?b1 = "p @ ts1" and ?b2 = "p @ ts2"
  have ne: "?b1 \<noteq> ?b2" using ts by simp
  from s1 have m1: "m_id m1 = ?b1" "m_path m1 = path_join (snap_dir e) (?b1 @ ''.txt'')"
    and st1: "json_files st1 = dict_set (json_files st) ?b1 (Meta m1)"
             "txt_files st1 = dict_set (txt_files st) ?b1 text1"
    by (auto simp: save_snapshot_def Let_def p_def split: if_splits)
  from s2 have m2: "m_id m2 = ?b2" "m_path m2 = path_join (snap_dir e) (?b2 @ ''.txt'')"
    and st2: "json_files st2 = dict_set (json_files st1) ?b2 (Meta m2)"
             "txt_files st2 = dict_set (txt_files st1) ?b2 text2"
    by (auto simp: save_snapshot_def Let_def p_def split: if_splits)
  have j1: "dict_get (json_files st2) ?b1 = Some (Meta m1)"
    using ne by (simp add: st1 st2 dict_get_set)
  have t1: "dict_get (txt_files st2) ?b1 = Some text1"
    using ne by (simp add: st1 st2 dict_get_set)
  have j2: "dict_get (json_files st2) ?b2 = Some (Meta m2)"
    by (simp add: st2 dict_get_set)
  have t2: "dict_get (txt_files st2) ?b2 = Some text2"
    by (simp add: st2 dict_get_set)
  have g1: "get_snapshot e st2 (m_id m1) = Inr (Some (Meta m1, m_path m1))"
    using j1 t1 by (simp add: get_snapshot_def dict_has_iff m1 Let_def)
  have g2: "get_snapshot e st2 (m_id m2) = Inr (Some (Meta m2, m_path m2))"
    using j2 t2 by (simp add: get_snapshot_def dict_has_iff m2 Let_def)
  have r1: "read_text st2 (m_id m1) = Inr (universal_newlines text1)"
    using t1 by (simp add: read_text_def m1)
  have r2: "read_text st2 (m_id m2) = Inr (universal_newlines text2)"
    using t2 by (simp add: read_text_def m2)
  from ne g1 g2 r1 r2 show ?thesis by (simp add: m1 m2)
qed


theorem save_twice_witness:
  "save_snapshot \<lparr>python = ''python3'', mode = ''venv'', snap_dir = ''/data/snaps''\<rparr> [] ''20240101_120000'' ''six==1.16.0''
      \<lparr>json_files = [], txt_files = []\<rparr> ''env'' []
    = (Inr \<lparr>m_id = ''env_20240101_120000'', m_name = ''env'', m_comment = [],
        m_created_utc = JStr ''20240101_120000'', m_python = ''python3'', m_mode = ''venv'',
        m_count = 1, m_requirements = ''env_20240101_120000.txt'',
        m_dir = ''/data/snaps'', m_path = ''/data/snaps/env_20240101_120000.txt''\<rparr>,
       \<lparr>json_files = [(''env_20240101_120000'', Meta \<lparr>m_id = ''env_20240101_120000'', m_name = ''env'', m_comment = [],
        m_created_utc = JStr ''20240101_120000'', m_python = ''python3'', m_mode = ''venv'',
        m_count = 1, m_requirements = ''env_20240101_120000.txt'',
        m_dir = ''/data/snaps'', m_path = ''/data/snaps/env_20240101_120000.txt''\<rparr>)],
      txt_files = [(''env_20240101_120000'', ''six==1.16.0'')]\<rparr>)
   \<and> save_snapshot \<lparr>python = ''python3'', mode = ''venv'', snap_dir = ''/data/snaps''\<rparr> [] ''20240101_120001'' ''six==1.17.0''
      \<lparr>json_files = [(''env_20240101_120000'', Meta \<lparr>m_id = ''env_20240101_120000'', m_name = ''env'', m_comment = [],
        m_created_utc = JStr ''20240101_120000'', m_python = ''python3'', m_mode = ''venv'',
        m_count = 1, m_requirements = ''env_20240101_120000.txt'',
        m_dir = ''/data/snaps'', m_path = ''/data/snaps/env_20240101_120000.txt''\<rparr>)],
      txt_files = [(''env_20240101_120000'', ''six==1.16.0'')]\<rparr> ''env'' []
    = (Inr \<lparr>m_id = ''env_20240101_120001'', m_name = ''env'', m_comment = [],
        m_created_utc = JStr ''20240101_120001'', m_python = ''python3'', m_mode = ''venv'',
        m_count = 1, m_requirements = ''env_20240101_120001.txt'',
        m_dir = ''/data/snaps'', m_path = ''/data/snaps/env_20240101_120001.txt''\<rparr>,
       \<lparr>json_files = [(''env_20240101_120000'', Meta \<lparr>m_id = ''env_20240101_120000'', m_name = ''env'', m_comment = [],
        m_created_utc = JStr ''20240101_120000'', m_python = ''python3'', m_mode = ''venv'',
        m_count = 1, m_requirements = ''env_20240101_120000.txt'',
        m_dir = ''/data/snaps'', m_path = ''/data/snaps/env_20240101_120000.txt''\<rparr>), (''env_20240101_120001'', Meta \<lparr>m_id = ''env_20240101_120001'', m_name = ''env'', m_comment = [],
        m_created_utc = JStr ''20240101_120001'', m_python = ''python3'', m_mode = ''venv'',
        m_count = 1, m_requirements = ''env_20240101_120001.txt'',
        m_dir = ''/data/snaps'', m_path = ''/data/snaps/env_20240101_120001.txt''\<rparr>)],
      txt_files = [(''env_20240101_120000'', ''six==1.16.0''), (''env_20240101_120001'', ''six==1.17.0'')]\<rparr>)
   \<and> ''20240101_120000'' \<noteq> ''20240101_120001''
   \<and> ''env_20240101_120000'' \<noteq> ''env_20240101_120001''
   \<and> read_text \<lparr>json_files = [(''env_20240101_120000'', Meta \<lparr>m_id = ''env_20240101_120000'', m_name = ''env'', m_comment = [],
        m_created_utc = JStr ''20240101_120000'', m_python = ''python3'', m_mode = ''venv'',
        m_count = 1, m_requirements = ''env_20240101_120000.txt'',
        m_dir = ''/data/snaps'', m_path = ''/data/snaps/env_20240101_120000.txt''\<rparr>), (''env_20240101_120001'', Meta \<lparr>m_id = ''env_20240101_120001'', m_name = ''env'', m_comment = [],
        m_created_utc = JStr ''20240101_120001'', m_python = ''python3'', m_mode = ''venv'',
        m_count = 1, m_requirements = ''env_20240101_120001.txt'',
        m_dir = ''/data/snaps'', m_path = ''/data/snaps/env_20240101_120001.txt''\<rparr>)],
      txt_files = [(''env_20240101_120000'', ''six==1.16.0''), (''env_20240101_120001'', ''six==1.17.0'')]\<rparr> ''env_20240101_120000'' = Inr ''six==1.16.0''
   \<and> read_text \<lparr>json_files = [(''env_20240101_120000'', Meta \<lparr>m_id = ''env_20240101_120000'', m_name = ''env'', m_comment = [],
        m_created_utc = JStr ''20240101_120000'', m_python = ''python3'', m_mode = ''venv'',
        m_count = 1, m_requirements = ''env_20240101_120000.txt'',
        m_dir = ''/data/snaps'', m_path = ''/data/snaps/env_20240101_120000.txt''\<rparr>), (''env_20240101_120001'', Meta \<lparr>m_id = ''env_20240101_120001'', m_name = ''env'', m_comment = [],
        m_created_utc = JStr ''20240101_120001'', m_python = ''python3'', m_mode = ''venv'',
        m_count = 1, m_requirements = ''env_20240101_120001.txt'',
        m_dir = ''/data/snaps'', m_path = ''/data/snaps/env_20240101_120001.txt''\<rparr>)],
      txt_files = [(''env_20240101_120000'', ''six==1.16.0''), (''env_20240101_120001'', ''six==1.17.0'')]\<rparr> ''env_20240101_120001'' = Inr ''six==1.17.0''"
proof -
  let ?e = "\<lparr>python = ''python3'', mode = ''venv'', snap_dir = ''/data/snaps''\<rparr>"
  let ?m1 = "\<lparr>m_id = ''env_20240101_120000'', m_name = ''env'', m_comment = [],
        m_created_utc = JStr ''20240101_120000'', m_python = ''python3'', m_mode = ''venv'',
        m_count = 1, m_requirements = ''env_20240101_120000.txt'',
        m_dir = ''/data/snaps'', m_path = ''/data/snaps/env_20240101_120000.txt''\<rparr>"
  let ?m2 = "\<lparr>m_id = ''env_20240101_120001'', m_name = ''env'', m_comment = [],
        m_created_utc = JStr ''20240101_120001'', m_python = ''python3'', m_mode = ''venv'',
        m_count = 1, m_requirements = ''env_20240101_120001.txt'',
        m_dir = ''/data/snaps'', m_path = ''/data/snaps/env_20240101_120001.txt''\<rparr>"
  let ?st1 = "\<lparr>json_files = [(''env_20240101_120000'', Meta ?m1)], txt_files = [(''env_20240101_120000'', ''six==1.16.0'')]\<rparr>"
  let ?st2 = "\<lparr>json_files = [(''env_20240101_120000'', Meta ?m1), (''env_20240101_120001'', Meta ?m2)],
      txt_files = [(''env_20240101_120000'', ''six==1.16.0''), (''env_20240101_120001'', ''six==1.17.0'')]\<rparr>"
  have h1: "save_snapshot ?e [] ''20240101_120000'' ''six==1.16.0'' \<lparr>json_files = [], txt_files = []\<rparr> ''env'' []
      = (Inr ?m1, ?st1)"
    by code_simp
  have h2: "save_snapshot ?e [] ''20240101_120001'' ''six==1.17.0'' ?st1 ''env'' [] = (Inr ?m2, ?st2)"
    by code_simp
  have h3: "''20240101_120000'' \<noteq> ''20240101_120001''" by simp
  from save_twice [OF h1 h2 h3] h1 h2 h3 show ?thesis by simp
qed

text \<open>
  Two saves under the name \<open>env\<close> with the same timestamp: both return the id
  \<open>env_20240101_120000\<close>, and the directory then holds one snapshot, with the payload
  of the second save.
\<close>

theorem save_twice_same_second:
  "save_snapshot \<lparr>python = ''python3'', mode = ''venv'', snap_dir = ''/data/snaps''\<rparr> [] ''20240101_120000'' ''six==1.16.0''
      \<lparr>json_files = [], txt_files = []\<rparr> ''env'' []
    = (Inr \<lparr>m_id = ''env_20240101_120000'', m_name = ''env'', m_comment = [],
        m_created_utc = JStr ''20240101_120000'', m_python = ''python3'', m_mode = ''venv'',
        m_count = 1, m_requirements = ''env_20240101_120000.txt'',
        m_dir = ''/data/snaps'', m_path = ''/data/snaps/env_20240101_120000.txt''\<rparr>,
       \<lparr>json_files = [(''env_20240101_120000'', Meta \<lparr>m_id = ''env_20240101_120000'', m_name = ''env'', m_comment = [],
        m_created_utc = JStr ''20240101_120000'', m_python = ''python3'', m_mode = ''venv'',
        m_count = 1, m_requirements = ''env_20240101_120000.txt'',
        m_dir = ''/data/snaps'', m_path = ''/data/snaps/env_20240101_120000.txt''\<rparr>)],
      txt_files = [(''env_20240101_120000'', ''six==1.16.0'')]\<rparr>)
   \<and> save_snapshot \<lparr>python = ''python3'', mode = ''venv'', snap_dir = ''/data/snaps''\<rparr> [] ''20240101_120000'' ''six==1.17.0''
      \<lparr>json_files = [(''env_20240101_120000'', Meta \<lparr>m_id = ''env_20240101_120000'', m_name = ''env'', m_comment = [],
        m_created_utc = JStr ''20240101_120000'', m_python = ''python3'', m_mode = ''venv'',
        m_count = 1, m_requirements = ''env_20240101_120000.txt'',
        m_dir = ''/data/snaps'', m_path = ''/data/snaps/env_20240101_120000.txt''\<rparr>)],
      txt_files = [(''env_20240101_120000'', ''six==1.16.0'')]\<rparr> ''env'' []
    = (Inr \<lparr>m_id = ''env_20240101_120000'', m_name = ''env'', m_comment = [],
        m_created_utc = JStr ''20240101_120000'', m_python = ''python3'', m_mode = ''venv'',
        m_count = 1, m_requirements = ''env_20240101_120000.txt'',
        m_dir = ''/data/snaps'', m_path = ''/data/snaps/env_20240101_120000.txt''\<rparr>,
       \<lparr>json_files = [(''env_20240101_120000'', Meta \<lparr>m_id = ''env_20240101_120000'', m_name = ''env'', m_comment = [],
        m_created_utc = JStr ''20240101_120000'', m_python = ''python3'', m_mode = ''venv'',
        m_count = 1, m_requirements = ''env_20240101_120000.txt'',
        m_dir = ''/data/snaps'', m_path = ''/data/snaps/env_20240101_120000.txt''\<rparr>)],
      txt_files = [(''env_20240101_120000'', ''six==1.17.0'')]\<rparr>)
   \<and> read_text \<lparr>json_files = [(''env_20240101_120000'', Meta \<lparr>m_id = ''env_20240101_120000'', m_name = ''env'', m_comment = [],
        m_created_utc = JStr ''20240101_120000'', m_python = ''python3'', m_mode = ''venv'',
        m_count = 1, m_requirements = ''env_20240101_120000.txt'',
        m_dir = ''/data/snaps'', m_path = ''/data/snaps/env_20240101_120000.txt''\<rparr>)],
      txt_files = [(''env_20240101_120000'', ''six==1.17.0'')]\<rparr> ''env_20240101_120000'' = Inr ''six==1.17.0''"
  by code_simp

text \<open>
  C10.  When neither the metadata file nor the payload file of an id exists,
  \<open>delete_snapshot\<close> returns \<open>True\<close> and leaves the directory as it is.  In general it
  returns \<open>False\<close> exactly when one of the two files exists and its removal raises.
\<close>

theorem delete_snapshot_ok:
  "(\<not> dict_has (json_files st) sid \<and> \<not> dict_has (txt_files st) sid
      \<longrightarrow> delete_snapshot unremovable st sid = (True, st))
   \<and> (fst (delete_snapshot unremovable st sid) = False \<longleftrightarrow>
        (dict_has (json_files st) sid \<and> sid @ ''.json'' \<in> set unremovable)
        \<or> (dict_has (txt_files st) sid \<and> sid @ ''.txt'' \<in> set unremovable))"
  by (auto simp: delete_snapshot_def Let_def)

theorem delete_snapshot_ok_witness:
  "\<not> dict_has (json_files \<lparr>json_files = [], txt_files = [(''b_20240101_120000'', ''six==1.16.0'')]\<rparr>)
        ''a_20240101_120000''
   \<and> \<not> dict_has (txt_files \<lparr>json_files = [], txt_files = [(''b_20240101_120000'', ''six==1.16.0'')]\<rparr>)
        ''a_20240101_120000''
   \<and> delete_snapshot [''a_20240101_120000.json'']
        \<lparr>json_files = [], txt_files = [(''b_20240101_120000'', ''six==1.16.0'')]\<rparr>
        ''a_20240101_120000''
      = (True, \<lparr>json_files = [], txt_files = [(''b_20240101_120000'', ''six==1.16.0'')]\<rparr>)"
proof -
  let ?st = "\<lparr>json_files = [], txt_files = [(''b_20240101_120000'', ''six==1.16.0'')]\<rparr>"
  have h1: "\<not> dict_has (json_files ?st) ''a_20240101_120000''" by code_simp
  have h2: "\<not> dict_has (txt_files ?st) ''a_20240101_120000''" by code_simp
  from delete_snapshot_ok [of ?st "''a_20240101_120000''" "[''a_20240101_120000.json'']"] h1 h2
  show ?thesis by blast
qed

section \<open>Properties of the previews\<close>

lemma diff_envs_installs_target:
  assumes "diff_envs cur tgt = (ins, unins, unch)"
  shows "map (\<lambda>it. (i_name it, i_to it)) ins
           = map (\<lambda>kt. (name (snd kt), version (snd kt))) (filter (is_install cur) tgt)"
  using assms by (auto simp: diff_envs_eq mk_install_def)

lemma preview_current_plan:
  assumes "preview_snapshot_vs_current e cur_text st sid = Inr (Some r)"
  shows "\<exists>cur tgt. diff_envs cur tgt = (installs r, uninstalls r, unchanged r)
                 \<and> commands r = render_commands (installs r) (uninstalls r)"
  using assms unfolding preview_snapshot_vs_current_def
  by (auto split: sum.splits option.splits prod.splits if_splits) blast

lemma preview_pair_plan:
  assumes "preview_snapshot_vs_snapshot e st a_id b_id = Inr (Some r)"
  shows "\<exists>cur tgt. diff_envs cur tgt = (installs r, uninstalls r, unchanged r)
                 \<and> commands r = render_commands (installs r) (uninstalls r)"
  using assms unfolding preview_snapshot_vs_snapshot_def
  by (auto split: sum.splits option.splits prod.splits if_splits) blast

text \<open>
  C7.  The commands of a preview, of either kind, are: when the uninstalls are not
  empty, first one uninstall command naming all of them, their names sorted; then one
  install command for each item of the installs, in the order of that list, with the
  name and the version of the target entry the item was made from.  The result lists
  are the diff of the two package sets compared.
\<close>

theorem preview_commands:
  assumes "preview_snapshot_vs_current e cur_text st sid = Inr (Some r)
         \<or> preview_snapshot_vs_snapshot e st a_id b_id = Inr (Some r)"
  shows "\<exists>cur tgt names.
           diff_envs cur tgt = (installs r, uninstalls r, unchanged r)
         \<and> map (\<lambda>it. (i_name it, i_to it)) (installs r)
             = map (\<lambda>kt. (name (snd kt), version (snd kt))) (filter (is_install cur) tgt)
         \<and> sorted names \<and> mset names = mset (map u_name (uninstalls r))
         \<and> commands r =
             (if uninstalls r = [] then []
              else [''python -m pip uninstall -y '' @ join '' '' names])
             @ map (\<lambda>it. ''python -m pip install '' @ i_name it @ ''=='' @ i_to it) (installs r)"
proof -
  from assms obtain cur tgt where
    d: "diff_envs cur tgt = (installs r, uninstalls r, unchanged r)" and
    c: "commands r = render_commands (installs r) (uninstalls r)"
    using preview_current_plan preview_pair_plan by blast
  show ?thesis
  proof (intro exI conjI)
    show "diff_envs cur tgt = (installs r, uninstalls r, unchanged r)" by (rule d)
    show "map (\<lambda>it. (i_name it, i_to it)) (installs r)
        = map (\<lambda>kt. (name (snd kt), version (snd kt))) (filter (is_install cur) tgt)"
      by (rule diff_envs_installs_target [OF d])
    show "sorted (sort (map u_name (uninstalls r)))" by simp
    show "mset (sort (map u_name (uninstalls r))) = mset (map u_name (uninstalls r))" by simp
    show "commands r =
        (if uninstalls r = [] then []
         else [''python -m pip uninstall -y '' @ join '' '' (sort (map u_name (uninstalls r)))])
        @ map (\<lambda>it. ''python -m pip install '' @ i_name it @ ''=='' @ i_to it) (installs r)"
      unfolding c render_commands_def by simp
  qed
qed


theorem preview_commands_witness:
  "preview_snapshot_vs_snapshot \<lparr>python = ''python3'', mode = ''venv'', snap_dir = ''/data/snaps''\<rparr>
     \<lparr>json_files = [(''a'', Meta \<lparr>m_id = ''a'', m_name = ''a'', m_comment = [],
        m_created_utc = JStr ''20240101_120000'', m_python = ''python3'', m_mode = ''venv'',
        m_count = 4, m_requirements = ''a.txt'',
        m_dir = ''/data/snaps'', m_path = ''/data/snaps/a.txt''\<rparr>), (''b'', Meta \<lparr>m_id = ''b'', m_name = ''b'', m_comment = [],
        m_created_utc = JStr ''20240101_120001'', m_python = ''python3'', m_mode = ''venv'',
        m_count = 3, m_requirements = ''b.txt'',
        m_dir = ''/data/snaps'', m_path = ''/data/snaps/b.txt''\<rparr>)],
      txt_files =
        [(''a'', ''zope==1.0'' @ [CHR 0x0A] @ ''six==1.16.0'' @ [CHR 0x0A] @ ''Attrs==23.1''
                 @ [CHR 0x0A] @ ''idna==3.4''),
         (''b'', ''six==1.17.0'' @ [CHR 0x0A] @ ''idna==3.4'' @ [CHR 0x0A] @ ''urllib3==2.0'')]\<rparr> ''a'' ''b''
   = Inr (Some
     \<lparr>snapshots = [Meta \<lparr>m_id = ''a'', m_name = ''a'', m_comment = [],
        m_created_utc = JStr ''20240101_120000'', m_python = ''python3'', m_mode = ''venv'',
        m_count = 4, m_requirements = ''a.txt'',
        m_dir = ''/data/snaps'', m_path = ''/data/snaps/a.txt''\<rparr>, Meta \<lparr>m_id = ''b'', m_name = ''b'', m_comment = [],
        m_created_utc = JStr ''20240101_120001'', m_python = ''python3'', m_mode = ''venv'',
        m_count = 3, m_requirements = ''b.txt'',
        m_dir = ''/data/snaps'', m_path = ''/data/snaps/b.txt''\<rparr>],
      counts = [2, 2, 1, 0, 0],
      installs = [\<lparr>i_name = ''six'', i_from = Some ''1.16.0'', i_to = ''1.17.0''\<rparr>,
                  \<lparr>i_name = ''urllib3'', i_from = None, i_to = ''2.0''\<rparr>],
      uninstalls = [\<lparr>u_name = ''zope'', u_from = ''1.0''\<rparr>,
                    \<lparr>u_name = ''Attrs'', u_from = ''23.1''\<rparr>],
      unchanged = [\<lparr>name = ''idna'', version = ''3.4''\<rparr>],
      commands = [''python -m pip uninstall -y Attrs zope'',
                  ''python -m pip install six==1.17.0'',
                  ''python -m pip install urllib3==2.0'']\<rparr>)
   \<and> (\<exists>names. sorted names \<and> mset names = mset [''zope'', ''Attrs'']
        \<and> [''python -m pip uninstall -y Attrs zope'',
            ''python -m pip install six==1.17.0'',
            ''python -m pip install urllib3==2.0'']
          = [''python -m pip uninstall -y '' @ join '' '' names,
             ''python -m pip install '' @ ''six'' @ ''=='' @ ''1.17.0'',
             ''python -m pip install '' @ ''urllib3'' @ ''=='' @ ''2.0''])"
proof -
  let ?e = "\<lparr>python = ''python3'', mode = ''venv'', snap_dir = ''/data/snaps''\<rparr>"
  let ?ma = "\<lparr>m_id = ''a'', m_name = ''a'', m_comment = [],
        m_created_utc = JStr ''20240101_120000'', m_python = ''python3'', m_mode = ''venv'',
        m_count = 4, m_requirements = ''a.txt'',
        m_dir = ''/data/snaps'', m_path = ''/data/snaps/a.txt''\<rparr>"
  let ?mb = "\<lparr>m_id = ''b'', m_name = ''b'', m_comment = [],
        m_created_utc = JStr ''20240101_120001'', m_python = ''python3'', m_mode = ''venv'',
        m_count = 3, m_requirements = ''b.txt'',
        m_dir = ''/data/snaps'', m_path = ''/data/snaps/b.txt''\<rparr>"
  let ?st = "\<lparr>json_files = [(''a'', Meta ?ma), (''b'', Meta ?mb)],
      txt_files =
        [(''a'', ''zope==1.0'' @ [CHR 0x0A] @ ''six==1.16.0'' @ [CHR 0x0A] @ ''Attrs==23.1''
                 @ [CHR 0x0A] @ ''idna==3.4''),
         (''b'', ''six==1.17.0'' @ [CHR 0x0A] @ ''idna==3.4'' @ [CHR 0x0A] @ ''urllib3==2.0'')]\<rparr>"
  let ?r = "\<lparr>snapshots = [Meta ?ma, Meta ?mb],
      counts = [2, 2, 1, 0, 0],
      installs = [\<lparr>i_name = ''six'', i_from = Some ''1.16.0'', i_to = ''1.17.0''\<rparr>,
                  \<lparr>i_name = ''urllib3'', i_from = None, i_to = ''2.0''\<rparr>],
      uninstalls = [\<lparr>u_name = ''zope'', u_from = ''1.0''\<rparr>,
                    \<lparr>u_name = ''Attrs'', u_from = ''23.1''\<rparr>],
      unchanged = [\<lparr>name = ''idna'', version = ''3.4''\<rparr>],
      commands = [''python -m pip uninstall -y Attrs zope'',
                  ''python -m pip install six==1.17.0'',
                  ''python -m pip install urllib3==2.0'']\<rparr>"
  have h: "preview_snapshot_vs_snapshot ?e ?st ''a'' ''b'' = Inr (Some ?r)"
    by code_simp
  from preview_commands [OF disjI2 [OF h]] obtain names where
    "sorted names" "mset names = mset (map u_name (uninstalls ?r))"
    "commands ?r =
       (if uninstalls ?r = [] then []
        else [''python -m pip uninstall -y '' @ join '' '' names])
       @ map (\<lambda>it. ''python -m pip install '' @ i_name it @ ''=='' @ i_to it) (installs ?r)"
    by blast
  then have "\<exists>names. sorted names \<and> mset names = mset [''zope'', ''Attrs'']
        \<and> [''python -m pip uninstall -y Attrs zope'',
            ''python -m pip install six==1.17.0'',
            ''python -m pip install urllib3==2.0'']
          = [''python -m pip uninstall -y '' @ join '' '' names,
             ''python -m pip install '' @ ''six'' @ ''=='' @ ''1.17.0'',
             ''python -m pip install '' @ ''urllib3'' @ ''=='' @ ''2.0'']"
    by (intro exI [of _ names]) simp
  with h show ?thesis by blast
qed

section \<open>Properties of the jobs\<close>

lemma poll_job_text: "0 \<le> pos \<Longrightarrow> r_text (poll_job j pos) = drop (nat pos) (out_text j)"
  by (auto simp: poll_job_def slice_from_def Let_def min_def)

lemma append_only_last:
  "append_only b js \<Longrightarrow> js \<noteq> [] \<Longrightarrow> take (length b) (out_text (last js)) = b"
proof (induction js arbitrary: b)
  case Nil
  then show ?case by simp
next
  case (Cons j js)
  show ?case
  proof (cases "js = []")
    case True
    with Cons.prems show ?thesis by simp
  next
    case False
    from Cons.prems have b: "take (length b) (out_text j) = b" and ao: "append_only (out_text j) js"
      by simp_all
    from Cons.IH [OF ao False] have l: "take (length (out_text j)) (out_text (last js)) = out_text j" .
    from b have le: "length b \<le> length (out_text j)"
      by (metis length_take min.cobounded1)
    have "take (length b) (out_text (last js)) = take (length b) (take (length (out_text j)) (out_text (last js)))"
      using le by (simp add: min_def)
    also have "\<dots> = b" using l b by simp
    finally show ?thesis using False by simp
  qed
qed

lemma poll_chain_concat:
  "append_only b js \<Longrightarrow> js \<noteq> [] \<Longrightarrow>
     concat (map r_text (poll_chain (int (length b)) js)) = drop (length b) (out_text (last js))"
proof (induction js arbitrary: b)
  case Nil
  then show ?case by simp
next
  case (Cons j js)
  from Cons.prems have b: "take (length b) (out_text j) = b" and ao: "append_only (out_text j) js"
    by simp_all
  have d: "r_text (poll_job j (int (length b))) = drop (length b) (out_text j)"
    using poll_job_text [of "int (length b)" j] by simp
  have p: "r_pos (poll_job j (int (length b))) = int (length (out_text j))"
    by (simp add: poll_job_def)
  show ?case
  proof (cases "js = []")
    case True
    then show ?thesis by (simp add: d)
  next
    case False
    from b have le: "length b \<le> length (out_text j)"
      by (metis length_take min.cobounded1)
    from append_only_last [OF ao False]
    have l: "take (length (out_text j)) (out_text (last js)) = out_text j" .
    have "out_text (last js) = out_text j @ drop (length (out_text j)) (out_text (last js))"
      using l by (metis append_take_drop_id)
    then have "drop (length b) (out_text (last js))
        = drop (length b) (out_text j) @ drop (length (out_text j)) (out_text (last js))"
      using le by (metis drop_append diff_is_0_eq drop_0)
    with Cons.IH [OF ao False] False show ?thesis by (simp add: d p)
  qed
qed

text \<open>
  C9 (as amended).  A poll returns \<open>text[pos:]\<close> and the length of the buffer as new
  cursor; for a cursor \<open>pos\<close> that is not negative this is the text of the buffer from
  offset \<open>pos\<close> to its end, empty when \<open>pos\<close> is at or past the end.  When the first poll passes 0, each
  later poll passes the cursor returned by the poll before it, and the buffer only
  grows between the polls, the texts returned, concatenated in order, are the buffer
  as the last poll saw it.
\<close>

theorem poll_delta:
  "r_text (poll_job j pos) = slice_from (out_text j) pos
   \<and> (0 \<le> pos \<longrightarrow> r_text (poll_job j pos) = drop (nat pos) (out_text j))
   \<and> r_pos (poll_job j pos) = int (length (out_text j))
   \<and> (js \<noteq> [] \<and> append_only [] js \<longrightarrow>
        concat (map r_text (poll_chain 0 js)) = out_text (last js))"
proof -
  have "concat (map r_text (poll_chain 0 js)) = out_text (last js)"
    if "js \<noteq> []" "append_only [] js"
    using poll_chain_concat [OF that(2) that(1)] by simp
  moreover have "r_pos (poll_job j pos) = int (length (out_text j))"
    by (simp add: poll_job_def)
  moreover have "r_text (poll_job j pos) = slice_from (out_text j) pos"
    by (simp add: poll_job_def slice_from_def)
  ultimately show ?thesis using poll_job_text [of pos j] by blast
qed

theorem poll_delta_witness:
  "(0::int) \<le> 11
   \<and> r_text (poll_job
        \<lparr>job_id = ''j1'', kind = ''install'', args = [(''package'', Some ''six''), (''version'', None)],
        out_text = ''Collecting six'' @ [CHR 0x0A] @ ''Installing'' @ [CHR 0x0A], is_done = True, returncode = Some 0\<rparr> 11)
       = ''six'' @ [CHR 0x0A] @ ''Installing'' @ [CHR 0x0A]
   \<and> append_only []
        [\<lparr>job_id = ''j1'', kind = ''install'', args = [(''package'', Some ''six''), (''version'', None)],
        out_text = ''Collecting six'' @ [CHR 0x0A], is_done = False, returncode = None\<rparr>,
         \<lparr>job_id = ''j1'', kind = ''install'', args = [(''package'', Some ''six''), (''version'', None)],
        out_text = ''Collecting six'' @ [CHR 0x0A], is_done = False, returncode = None\<rparr>,
         \<lparr>job_id = ''j1'', kind = ''install'', args = [(''package'', Some ''six''), (''version'', None)],
        out_text = ''Collecting six'' @ [CHR 0x0A] @ ''Installing'' @ [CHR 0x0A], is_done = True, returncode = Some 0\<rparr>]
   \<and> concat (map r_text (poll_chain 0
        [\<lparr>job_id = ''j1'', kind = ''install'', args = [(''package'', Some ''six''), (''version'', None)],
        out_text = ''Collecting six'' @ [CHR 0x0A], is_done = False, returncode = None\<rparr>,
         \<lparr>job_id = ''j1'', kind = ''install'', args = [(''package'', Some ''six''), (''version'', None)],
        out_text = ''Collecting six'' @ [CHR 0x0A], is_done = False, returncode = None\<rparr>,
         \<lparr>job_id = ''j1'', kind = ''install'', args = [(''package'', Some ''six''), (''version'', None)],
        out_text = ''Collecting six'' @ [CHR 0x0A] @ ''Installing'' @ [CHR 0x0A], is_done = True, returncode = Some 0\<rparr>]))
       = ''Collecting six'' @ [CHR 0x0A] @ ''Installing'' @ [CHR 0x0A]"
proof -
  let ?j1 = "\<lparr>job_id = ''j1'', kind = ''install'', args = [(''package'', Some ''six''), (''version'', None)],
        out_text = ''Collecting six'' @ [CHR 0x0A], is_done = False, returncode = None\<rparr>"
  let ?j2 = "\<lparr>job_id = ''j1'', kind = ''install'', args = [(''package'', Some ''six''), (''version'', None)],
        out_text = ''Collecting six'' @ [CHR 0x0A] @ ''Installing'' @ [CHR 0x0A], is_done = True, returncode = Some 0\<rparr>"
  have h: "append_only [] [?j1, ?j1, ?j2]" by code_simp
  have n: "[?j1, ?j1, ?j2] \<noteq> []" by simp
  from poll_delta [of ?j2 11 "[?j1, ?j1, ?j2]"]
  have a: "(0::int) \<le> 11 \<longrightarrow> r_text (poll_job ?j2 11) = drop (nat 11) (out_text ?j2)"
    and c: "[?j1, ?j1, ?j2] \<noteq> [] \<and> append_only [] [?j1, ?j1, ?j2] \<longrightarrow>
        concat (map r_text (poll_chain 0 [?j1, ?j1, ?j2])) = out_text (last [?j1, ?j1, ?j2])"
    by blast+
  from a have a': "r_text (poll_job ?j2 11) = ''six'' @ [CHR 0x0A] @ ''Installing'' @ [CHR 0x0A]"
    by simp
  from c h n have c': "concat (map r_text (poll_chain 0 [?j1, ?j1, ?j2]))
      = ''Collecting six'' @ [CHR 0x0A] @ ''Installing'' @ [CHR 0x0A]"
    by simp
  from a' c' h show ?thesis by simp
qed

text \<open>
  Two polls of a job whose buffer is \<open>ab\<close>, with the cursors 0 and 1: the second poll
  returns again the \<open>b\<close> that the first one returned.
\<close>

theorem poll_stale_cursor:
  "r_text (poll_job
      \<lparr>job_id = ''j1'', kind = ''install'', args = [(''package'', Some ''six''), (''version'', None)],
        out_text = ''ab'', is_done = False, returncode = None\<rparr> 0) = ''ab''
   \<and> r_text (poll_job
      \<lparr>job_id = ''j1'', kind = ''install'', args = [(''package'', Some ''six''), (''version'', None)],
        out_text = ''ab'', is_done = False, returncode = None\<rparr> 1) = ''b''
   \<and> r_text (poll_job
      \<lparr>job_id = ''j1'', kind = ''install'', args = [(''package'', Some ''six''), (''version'', None)],
        out_text = ''ab'', is_done = False, returncode = None\<rparr> 0)
     @ r_text (poll_job
      \<lparr>job_id = ''j1'', kind = ''install'', args = [(''package'', Some ''six''), (''version'', None)],
        out_text = ''ab'', is_done = False, returncode = None\<rparr> 1) \<noteq> ''ab''"
  by code_simp

text \<open>
  C5.  What the code does for a job whose command cannot be launched: \<open>Popen\<close> raises
  in the worker thread, nothing catches it, and the job is left as it was created.
  Every later poll reports it as not done, with no return code and no text.
\<close>

theorem start_job_launch_failure:
  assumes "popen [python e, ''-m'', ''pip'', ''install'', pkg] = Raises"
  shows "\<exists>jobs'. start_job_install_name e popen uuid jobs pkg None = (uuid, jobs')
           \<and> poll jobs' uuid pos
               = Some \<lparr>r_text = [], r_pos = 0, r_done = False, r_returncode = None\<rparr>"
  using assms
  by (simp add: start_job_install_name_def Let_def Job_def register_job_def run_and_stream_def
        poll_def get_job_def dict_get_set poll_job_def slice_from_def)


theorem start_job_launch_failure_witness:
  "poll (snd (start_job_install_name \<lparr>python = ''python3'', mode = ''venv'', snap_dir = ''/data/snaps''\<rparr>
            (\<lambda>cmd. Raises) ''j1'' [] ''six'' None)) ''j1'' 0
     = Some \<lparr>r_text = [], r_pos = 0, r_done = False, r_returncode = None\<rparr>"
proof -
  have h: "(\<lambda>cmd. Raises) [python \<lparr>python = ''python3'', mode = ''venv'', snap_dir = ''/data/snaps''\<rparr>, ''-m'', ''pip'', ''install'', ''six''] = Raises"
    by simp
  from start_job_launch_failure [of "\<lambda>cmd. Raises" "\<lparr>python = ''python3'', mode = ''venv'', snap_dir = ''/data/snaps''\<rparr>" "''six''" "''j1''" "[]" 0, OF h]
  show ?thesis by auto
qed

end
